theory Spec2Isabelle
  imports Complex_Main "HOL-Library.AList"
begin

section \<open>SiGAT: adjacency derivations of a signed edge list\<close>

subsection \<open>Python containers\<close>

text \<open>
  \<^verbatim>\<open>build_adj_lists\<close> works on \<^verbatim>\<open>defaultdict(set)\<close> objects keyed by node ids.
  A dictionary is an association list whose keys stand in insertion order, as Python
  keeps them; a Python set is the list of its elements without repetition (Python
  fixes no order on a set, the list order is the model's).

  Reading \<^verbatim>\<open>d[k]\<close> on a \<^verbatim>\<open>defaultdict(set)\<close> returns the set stored under \<^verbatim>\<open>k\<close>,
  or a fresh empty set when the key is missing, and in the latter case it also
  stores that empty set under \<^verbatim>\<open>k\<close>: \<open>dd_get\<close> is the value read, \<open>dd_touch\<close> the
  effect of the read on the dictionary.
\<close>

type_synonym pyset = "int list"
type_synonym ddict = "(int \<times> pyset) list"

definition dd_get :: "ddict \<Rightarrow> int \<Rightarrow> pyset" where
  "dd_get d k = (case map_of d k of None \<Rightarrow> [] | Some s \<Rightarrow> s)"

definition dd_touch :: "ddict \<Rightarrow> int \<Rightarrow> ddict" where
  "dd_touch d k = (case map_of d k of None \<Rightarrow> d @ [(k, [])] | Some s \<Rightarrow> d)"

text \<open>\<^verbatim>\<open>d[k].add(x)\<close>\<close>

definition dd_add :: "ddict \<Rightarrow> int \<Rightarrow> int \<Rightarrow> ddict" where
  "dd_add d k x = AList.update k (List.insert x (dd_get d k)) d"

text \<open>\<^verbatim>\<open>len(set(a).intersection(set(b)))\<close>\<close>

definition isect_len :: "pyset \<Rightarrow> pyset \<Rightarrow> nat" where
  "isect_len a b = card (set a \<inter> set b)"

subsection \<open>\<^verbatim>\<open>get_tri_features\<close>\<close>

text \<open>
  \<^verbatim>\<open>r_edgelist\<close> is the tuple \<^verbatim>\<open>(pos_in_edgelist, pos_out_edgelist, neg_in_edgelist,
  neg_out_edgelist)\<close>. The function returns the tuple of the sixteen counts; since its
  reads go through \<^verbatim>\<open>defaultdict.__getitem__\<close>, it also leaves \<^verbatim>\<open>u\<close> and \<^verbatim>\<open>v\<close> as keys in
  each of the four dictionaries (in the order of their first read), which the model
  returns as the second component.
\<close>

type_synonym r_edgelist = "ddict \<times> ddict \<times> ddict \<times> ddict"

definition get_tri_features :: "int \<Rightarrow> int \<Rightarrow> r_edgelist \<Rightarrow> nat list \<times> r_edgelist" where
  "get_tri_features u v r =
     (case r of (pos_in_edgelist, pos_out_edgelist, neg_in_edgelist, neg_out_edgelist) \<Rightarrow>
        let d1_1 = isect_len (dd_get pos_out_edgelist u) (dd_get pos_in_edgelist v);
            d1_2 = isect_len (dd_get pos_out_edgelist u) (dd_get neg_in_edgelist v);
            d1_3 = isect_len (dd_get neg_out_edgelist u) (dd_get pos_in_edgelist v);
            d1_4 = isect_len (dd_get neg_out_edgelist u) (dd_get neg_in_edgelist v);
            d2_1 = isect_len (dd_get pos_out_edgelist u) (dd_get pos_out_edgelist v);
            d2_2 = isect_len (dd_get pos_out_edgelist u) (dd_get neg_out_edgelist v);
            d2_3 = isect_len (dd_get neg_out_edgelist u) (dd_get pos_out_edgelist v);
            d2_4 = isect_len (dd_get neg_out_edgelist u) (dd_get neg_out_edgelist v);
            d3_1 = isect_len (dd_get pos_in_edgelist u) (dd_get pos_out_edgelist v);
            d3_2 = isect_len (dd_get pos_in_edgelist u) (dd_get neg_out_edgelist v);
            d3_3 = isect_len (dd_get neg_in_edgelist u) (dd_get pos_out_edgelist v);
            d3_4 = isect_len (dd_get neg_in_edgelist u) (dd_get neg_out_edgelist v);
            d4_1 = isect_len (dd_get pos_in_edgelist u) (dd_get pos_in_edgelist v);
            d4_2 = isect_len (dd_get pos_in_edgelist u) (dd_get neg_in_edgelist v);
            d4_3 = isect_len (dd_get neg_in_edgelist u) (dd_get pos_in_edgelist v);
            d4_4 = isect_len (dd_get neg_in_edgelist u) (dd_get neg_in_edgelist v)
        in ([d1_1, d1_2, d1_3, d1_4, d2_1, d2_2, d2_3, d2_4,
             d3_1, d3_2, d3_3, d3_4, d4_1, d4_2, d4_3, d4_4],
            (dd_touch (dd_touch pos_in_edgelist v) u,
             dd_touch (dd_touch pos_out_edgelist u) v,
             dd_touch (dd_touch neg_in_edgelist v) u,
             dd_touch (dd_touch neg_out_edgelist u) v)))"

subsection \<open>\<^verbatim>\<open>build_adj_lists\<close>\<close>

text \<open>
  The signed edge list is an \<open>N \<times> 3\<close> integer tensor; after \<^verbatim>\<open>tolist()\<close> every row
  unpacks into \<^verbatim>\<open>node_i, node_j, s\<close>, so the list is a list of triples. The six
  dictionaries filled by the first loop are the fields of \<open>edgelists\<close>.
\<close>

type_synonym signed_edge = "int \<times> int \<times> int"

record edgelists =
  pos_edgelist :: ddict
  pos_out_edgelist :: ddict
  pos_in_edgelist :: ddict
  neg_edgelist :: ddict
  neg_out_edgelist :: ddict
  neg_in_edgelist :: ddict

definition empty_edgelists :: edgelists where
  "empty_edgelists = \<lparr>pos_edgelist = [], pos_out_edgelist = [], pos_in_edgelist = [],
     neg_edgelist = [], neg_out_edgelist = [], neg_in_edgelist = []\<rparr>"

text \<open>The body of the loop over the rows (two separate \<^verbatim>\<open>if\<close>s, both strict).\<close>

definition add_signed_edge :: "edgelists \<Rightarrow> signed_edge \<Rightarrow> edgelists" where
  "add_signed_edge b e =
     (case e of (node_i, node_j, s) \<Rightarrow>
        let b1 = (if s > 0 then
                    b\<lparr>pos_edgelist := dd_add (dd_add (pos_edgelist b) node_i node_j) node_j node_i,
                      pos_out_edgelist := dd_add (pos_out_edgelist b) node_i node_j,
                      pos_in_edgelist := dd_add (pos_in_edgelist b) node_j node_i\<rparr>
                  else b)
        in (if s < 0 then
              b1\<lparr>neg_edgelist := dd_add (dd_add (neg_edgelist b1) node_i node_j) node_j node_i,
                 neg_out_edgelist := dd_add (neg_out_edgelist b1) node_i node_j,
                 neg_in_edgelist := dd_add (neg_in_edgelist b1) node_j node_i\<rparr>
            else b1))"

text \<open>
  The pairs visited by \<^verbatim>\<open>for a in adj: for b in adj[a]\<close>, in the order of the visit.
\<close>

definition adj_edges :: "ddict \<Rightarrow> (int \<times> int) list" where
  "adj_edges adj = concat (map (\<lambda>(a, bs). map (Pair a) bs) adj)"

text \<open>
  \<^verbatim>\<open>for index, v in enumerate(v_list): if v > 0: adj_additions[index][i].add(j)\<close>
\<close>

definition tri_mark :: "ddict list \<Rightarrow> nat list \<Rightarrow> int \<Rightarrow> int \<Rightarrow> ddict list" where
  "tri_mark adj_additions v_list i j =
     foldl (\<lambda>adds (index, v). if v > 0 then adds[index := dd_add (adds ! index) i j] else adds)
       adj_additions (enumerate 0 v_list)"

text \<open>
  One pass of the body of \<^verbatim>\<open>for i in adj: for j in adj[i]\<close>; the state is the list
  of sixteen dictionaries being filled and the four base dictionaries that
  \<^verbatim>\<open>get_tri_features\<close> reads.
\<close>

definition tri_step :: "ddict list \<times> r_edgelist \<Rightarrow> int \<times> int \<Rightarrow> ddict list \<times> r_edgelist" where
  "tri_step st e =
     (case st of (adj_additions, r) \<Rightarrow>
      case e of (i, j) \<Rightarrow>
      case get_tri_features i j r of (v_list, r') \<Rightarrow>
        (tri_mark adj_additions v_list i j, r'))"

text \<open>
  \<^verbatim>\<open>adj1\<close> and \<^verbatim>\<open>adj2\<close> are copies taken before the loops, so the loops run over the
  keys the out-edge dictionaries had after the first loop, while the reads of
  \<^verbatim>\<open>get_tri_features\<close> act on the dictionaries that are returned.
\<close>

definition build_adj_lists :: "signed_edge list \<Rightarrow> ddict list" where
  "build_adj_lists edge_index_s_list =
     (let b = foldl add_signed_edge empty_edgelists edge_index_s_list;
          adj_additions1 = replicate 16 [];
          adj_additions2 = replicate 16 [];
          r_edgelist = (pos_in_edgelist b, pos_out_edgelist b,
                        neg_in_edgelist b, neg_out_edgelist b);
          adj1 = pos_out_edgelist b;
          adj2 = neg_out_edgelist b
      in case foldl tri_step (adj_additions1, r_edgelist) (adj_edges adj1) of
           (adj_additions1', r1) \<Rightarrow>
         case foldl tri_step (adj_additions2, r1) (adj_edges adj2) of
           (adj_additions2', (pos_in', pos_out', neg_in', neg_out')) \<Rightarrow>
             [pos_edgelist b, pos_out', pos_in', neg_edgelist b, neg_out', neg_in']
               @ adj_additions1' @ adj_additions2')"

text \<open>Membership of the pair \<open>(u, v)\<close> in the relation a dictionary stores: \<^verbatim>\<open>v in d[u]\<close>.\<close>

definition adj_has :: "ddict \<Rightarrow> int \<Rightarrow> int \<Rightarrow> bool" where
  "adj_has d u v = (v \<in> set (dd_get d u))"

text \<open>Two tuples of base dictionaries that store the same sets under every key.\<close>

definition r_same :: "r_edgelist \<Rightarrow> r_edgelist \<Rightarrow> bool" where
  "r_same r r' =
     (case r of (a, b, c, d) \<Rightarrow> case r' of (a', b', c', d') \<Rightarrow>
        dd_get a = dd_get a' \<and> dd_get b = dd_get b' \<and> dd_get c = dd_get c' \<and> dd_get d = dd_get d')"

section \<open>Tensors\<close>

text \<open>
  A two-dimensional tensor is its number of columns together with the list of its
  rows; the number of rows is the length of that list. The column count is kept
  apart so that a tensor without rows still has a shape. The element type is left
  open: the models below use only the operations they apply, and no law of
  arithmetic.
\<close>

datatype py_error = RuntimeError | IndexError

record 'a mat =
  ncols :: nat
  rows :: "'a list list"

definition nrows :: "'a mat \<Rightarrow> nat" where
  "nrows m = length (rows m)"

definition wf_mat :: "'a mat \<Rightarrow> bool" where
  "wf_mat m = list_all (\<lambda>r. length r = ncols m) (rows m)"

definition py_bind :: "py_error + 'a \<Rightarrow> ('a \<Rightarrow> py_error + 'b) \<Rightarrow> py_error + 'b" where
  "py_bind r f = (case r of Inl e \<Rightarrow> Inl e | Inr a \<Rightarrow> f a)"

text \<open>\<^verbatim>\<open>w[h]\<close> on the \<open>(hop + 1) \<times> 1\<close> parameter, kept as the list of its entries.\<close>

definition w_at :: "'a list \<Rightarrow> nat \<Rightarrow> py_error + 'a" where
  "w_at w h = (if h < length w then Inr (w ! h) else Inl IndexError)"

text \<open>\<^verbatim>\<open>w * x\<close> for a one-element tensor \<^verbatim>\<open>w\<close>: every entry is multiplied by it.\<close>

definition scale :: "'a::times \<Rightarrow> 'a mat \<Rightarrow> 'a mat" where
  "scale w x = x\<lparr>rows := map (map (\<lambda>a. w * a)) (rows x)\<rparr>"

text \<open>Entrywise sum of two tensors of one shape.\<close>

definition madd :: "'a::plus mat \<Rightarrow> 'a mat \<Rightarrow> 'a mat" where
  "madd a b = a\<lparr>rows := map2 (map2 (+)) (rows a) (rows b)\<rparr>"

text \<open>
  \<^verbatim>\<open>a += b\<close>: the right operand is broadcast to the shape of the left one (a
  dimension of size one is repeated), and the call raises when that is impossible.
\<close>

definition expand_to :: "nat \<Rightarrow> nat \<Rightarrow> 'a mat \<Rightarrow> 'a mat" where
  "expand_to n c b =
     (let rs = (if nrows b = n then rows b else replicate n (hd (rows b)))
      in \<lparr>ncols = c, rows = (if ncols b = c then rs else map (\<lambda>r. replicate c (hd r)) rs)\<rparr>)"

definition iadd :: "'a::plus mat \<Rightarrow> 'a mat \<Rightarrow> py_error + 'a mat" where
  "iadd a b =
     (if (nrows b = nrows a \<or> nrows b = 1) \<and> (ncols b = ncols a \<or> ncols b = 1)
      then Inr (madd a (expand_to (nrows a) (ncols a) b))
      else Inl RuntimeError)"

text \<open>\<^verbatim>\<open>torch.cat(ms, dim=1)\<close>: the tensors must agree in the number of rows.\<close>

fun torch_cat1 :: "'a mat list \<Rightarrow> py_error + 'a mat" where
  "torch_cat1 [] = Inl RuntimeError"
| "torch_cat1 (m # ms) =
     (if list_all (\<lambda>m'. nrows m' = nrows m) ms
      then Inr \<lparr>ncols = sum_list (map ncols (m # ms)),
                rows = map (\<lambda>i. concat (map (\<lambda>m'. rows m' ! i) (m # ms))) [0..<nrows m]\<rparr>
      else Inl RuntimeError)"

section \<open>SiGAT: the module\<close>

text \<open>
  An edge index is a tensor with two rows, the sources and the targets. The field
  \<open>x_emb\<close> is the embedding table \<^verbatim>\<open>self.x\<close>. The
  attention layers (\<^verbatim>\<open>GATConv\<close>), the final perceptron and the loss
  (\<^verbatim>\<open>Link_Sign_Product_Loss\<close>) are not part of these sources: they are functions of
  their tensor arguments, held by the module, and each of them may raise.
\<close>

type_synonym edge_index = "int list \<times> int list"

text \<open>\<^verbatim>\<open>.t()\<close> of an \<open>M \<times> 2\<close> tensor.\<close>

definition t_pairs :: "(int \<times> int) list \<Rightarrow> edge_index" where
  "t_pairs ps = (map fst ps, map snd ps)"

text \<open>
  The tensor \<^verbatim>\<open>map_adj_to_edges\<close> returns. \<^verbatim>\<open>torch.LongTensor(edges)\<close> of an empty list
  is one-dimensional, of shape \<open>(0,)\<close>, and \<^verbatim>\<open>.t()\<close> leaves it as it is; of a list of
  \<open>M > 0\<close> pairs it is \<open>M \<times> 2\<close>, and \<^verbatim>\<open>.t()\<close> gives the two rows.
\<close>

datatype edges_tensor = Flat_empty | Two_rows "int list" "int list"

record 'a SiGAT =
  in_dim :: nat
  out_dim :: nat
  node_num :: nat
  pos_edge_index :: edge_index
  neg_edge_index :: edge_index
  x_emb :: "'a mat"
  adj_lists :: "ddict list"
  edge_lists :: "edges_tensor list"
  aggs :: "('a mat \<Rightarrow> edges_tensor \<Rightarrow> py_error + 'a mat) list"
  mlp_layer :: "'a mat \<Rightarrow> py_error + 'a mat"
  lsp_loss :: "'a mat \<Rightarrow> edge_index \<Rightarrow> edge_index \<Rightarrow> py_error + 'a"

definition map_adj_to_edges :: "ddict \<Rightarrow> edges_tensor" where
  "map_adj_to_edges adj_list =
     (case adj_edges adj_list of
        [] \<Rightarrow> Flat_empty
      | e # es \<Rightarrow> (case t_pairs (e # es) of (srcs, dsts) \<Rightarrow> Two_rows srcs dsts))"

text \<open>
  \<^verbatim>\<open>__init__\<close>. \<open>rand_emb\<close> is the tensor drawn when no initial embedding is
  given, \<open>gat i\<close> the \<open>i\<close>-th attention layer created, \<open>mlp\<close> and \<open>lsp\<close> the perceptron
  and the loss.
\<close>

definition SiGAT_init ::
  "nat \<Rightarrow> signed_edge list \<Rightarrow> nat \<Rightarrow> nat \<Rightarrow> 'a mat option \<Rightarrow> 'a mat \<Rightarrow>
   (nat \<Rightarrow> 'a mat \<Rightarrow> edges_tensor \<Rightarrow> py_error + 'a mat) \<Rightarrow> ('a mat \<Rightarrow> py_error + 'a mat) \<Rightarrow>
   ('a mat \<Rightarrow> edge_index \<Rightarrow> edge_index \<Rightarrow> py_error + 'a) \<Rightarrow> 'a SiGAT" where
  "SiGAT_init n edge_index_s d_in d_out init_emb rand_emb gat mlp lsp =
     (let adj = build_adj_lists edge_index_s in
      \<lparr>in_dim = d_in, out_dim = d_out, node_num = n,
       pos_edge_index = t_pairs (map (\<lambda>(i, j, s). (i, j)) (filter (\<lambda>(i, j, s). s > 0) edge_index_s)),
       neg_edge_index = t_pairs (map (\<lambda>(i, j, s). (i, j)) (filter (\<lambda>(i, j, s). s < 0) edge_index_s)),
       x_emb = (case init_emb of None \<Rightarrow> rand_emb | Some e \<Rightarrow> e),
       adj_lists = adj,
       edge_lists = map map_adj_to_edges adj,
       aggs = map gat [0..<length adj],
       mlp_layer = mlp,
       lsp_loss = lsp\<rparr>)"

text \<open>
  \<^verbatim>\<open>forward\<close> and \<^verbatim>\<open>loss\<close> take the module and return their result together with
  the module as they leave it. \<open>run_aggs\<close> is the loop
  \<^verbatim>\<open>for edges, agg in zip(self.edge_lists, self.aggs)\<close> that fills \<^verbatim>\<open>neigh_feats\<close>.
\<close>

fun run_aggs ::
  "'a mat \<Rightarrow> (edges_tensor \<times> ('a mat \<Rightarrow> edges_tensor \<Rightarrow> py_error + 'a mat)) list \<Rightarrow>
   py_error + 'a mat list" where
  "run_aggs x1 [] = Inr []"
| "run_aggs x1 ((edges, agg) # rest) =
     (case agg x1 edges of
        Inl e \<Rightarrow> Inl e
      | Inr x2 \<Rightarrow> (case run_aggs x1 rest of Inl e \<Rightarrow> Inl e | Inr feats \<Rightarrow> Inr (x2 # feats)))"

definition SiGAT_forward :: "'a SiGAT \<Rightarrow> (py_error + 'a mat) \<times> 'a SiGAT" where
  "SiGAT_forward m =
     (py_bind (run_aggs (x_emb m) (zip (edge_lists m) (aggs m))) (\<lambda>neigh_feats.
        let x0 = x_emb m
        in py_bind (torch_cat1 ([x0] @ neigh_feats)) (\<lambda>combined. mlp_layer m combined)), m)"

definition SiGAT_loss :: "'a SiGAT \<Rightarrow> (py_error + 'a) \<times> 'a SiGAT" where
  "SiGAT_loss m =
     (case SiGAT_forward m of (r, m') \<Rightarrow>
        (py_bind r (\<lambda>z. lsp_loss m' z (pos_edge_index m') (neg_edge_index m')), m'))"

datatype call = Forward | Loss

definition SiGAT_call :: "call \<Rightarrow> 'a SiGAT \<Rightarrow> 'a SiGAT" where
  "SiGAT_call c m = (case c of Forward \<Rightarrow> snd (SiGAT_forward m) | Loss \<Rightarrow> snd (SiGAT_loss m))"

text \<open>The module after a sequence of calls.\<close>

definition SiGAT_calls :: "call list \<Rightarrow> 'a SiGAT \<Rightarrow> 'a SiGAT" where
  "SiGAT_calls cs m = foldl (\<lambda>m c. SiGAT_call c m) m cs"

section \<open>DIGRAC\<close>

subsection \<open>The framework\<close>

text \<open>
  The numeric kernels belong to the tensor framework. \<open>dot\<close> is the inner product
  \<^verbatim>\<open>torch.mm\<close> forms of a row and a column, \<open>relu\<close> the entrywise rectifier,
  \<open>dropout c i j\<close> what the \<open>c\<close>-th dropout call makes of the entry at row \<open>i\<close> and
  column \<open>j\<close> (the mask is random in training and the identity in evaluation), and
  \<open>argmax_row\<close>, \<open>softmax_row\<close>, \<open>log_softmax_row\<close>, \<open>normalize_row\<close> what
  \<^verbatim>\<open>torch.argmax\<close>, \<^verbatim>\<open>F.softmax\<close>, \<^verbatim>\<open>F.log_softmax\<close> and \<^verbatim>\<open>F.normalize\<close> compute on one
  row.
\<close>

record 'a torch =
  dot :: "'a list \<Rightarrow> 'a list \<Rightarrow> 'a"
  relu :: "'a \<Rightarrow> 'a"
  dropout :: "nat \<Rightarrow> nat \<Rightarrow> nat \<Rightarrow> 'a \<Rightarrow> 'a"
  argmax_row :: "'a list \<Rightarrow> nat"
  softmax_row :: "'a list \<Rightarrow> 'a list"
  log_softmax_row :: "'a list \<Rightarrow> 'a list"
  normalize_row :: "'a list \<Rightarrow> 'a list"

text \<open>\<^verbatim>\<open>torch.mm(a, b)\<close>: the columns of \<^verbatim>\<open>a\<close> must be as many as the rows of \<^verbatim>\<open>b\<close>.\<close>

definition torch_mm :: "'a torch \<Rightarrow> 'a mat \<Rightarrow> 'a mat \<Rightarrow> py_error + 'a mat" where
  "torch_mm T a b =
     (if ncols a = nrows b
      then Inr \<lparr>ncols = ncols b,
                rows = map (\<lambda>r. map (\<lambda>j. dot T r (map (\<lambda>br. br ! j) (rows b))) [0..<ncols b]) (rows a)\<rparr>
      else Inl RuntimeError)"

definition relu_mat :: "'a torch \<Rightarrow> 'a mat \<Rightarrow> 'a mat" where
  "relu_mat T m = m\<lparr>rows := map (map (relu T)) (rows m)\<rparr>"

definition dropout_mat :: "'a torch \<Rightarrow> nat \<Rightarrow> 'a mat \<Rightarrow> 'a mat" where
  "dropout_mat T c m =
     m\<lparr>rows := map (\<lambda>(i, r). map (\<lambda>(j, a). dropout T c i j a) (enumerate 0 r)) (enumerate 0 (rows m))\<rparr>"

text \<open>A function of one row applied along \<^verbatim>\<open>dim=1\<close>.\<close>

definition rowwise :: "('a list \<Rightarrow> 'a list) \<Rightarrow> 'a mat \<Rightarrow> 'a mat" where
  "rowwise f m = m\<lparr>rows := map f (rows m)\<rparr>"

text \<open>\<^verbatim>\<open>torch.argmax(m, dim=1)\<close> raises on a tensor without columns.\<close>

definition argmax_dim1 :: "'a torch \<Rightarrow> 'a mat \<Rightarrow> py_error + nat list" where
  "argmax_dim1 T m = (if ncols m = 0 then Inl IndexError else Inr (map (argmax_row T) (rows m)))"

text \<open>
  \<^verbatim>\<open>m + b\<close> for a one-dimensional \<^verbatim>\<open>b\<close>: the vector is added to every row, a
  dimension of size one being repeated on either side.
\<close>

definition add_bias :: "'a::plus mat \<Rightarrow> 'a list \<Rightarrow> py_error + 'a mat" where
  "add_bias m b =
     (if ncols m = length b then Inr (m\<lparr>rows := map (\<lambda>r. map2 (+) r b) (rows m)\<rparr>)
      else if length b = 1 then Inr (m\<lparr>rows := map (map (\<lambda>a. a + hd b)) (rows m)\<rparr>)
      else if ncols m = 1 then Inr \<lparr>ncols = length b, rows = map (\<lambda>r. map (\<lambda>c. hd r + c) b) (rows m)\<rparr>
      else Inl RuntimeError)"

subsection \<open>DIMPA\<close>

text \<open>
  The parameters \<^verbatim>\<open>_w_s\<close> and \<^verbatim>\<open>_w_t\<close> have shape \<open>(hop + 1) \<times> 1\<close> and are kept as
  the lists of their entries. The convolution layer (\<^verbatim>\<open>Conv_Base\<close>) is not part of
  these sources: it is a function of the features, the edge index and the edge
  weights, held by the module.
\<close>

record 'a DIMPA =
  hop :: nat
  w_s :: "'a list"
  w_t :: "'a list"
  conv_layer :: "'a mat \<Rightarrow> edge_index \<Rightarrow> 'a list \<Rightarrow> 'a mat"

definition DIMPA_init :: "nat \<Rightarrow> ('a::one mat \<Rightarrow> edge_index \<Rightarrow> 'a list \<Rightarrow> 'a mat) \<Rightarrow> 'a DIMPA" where
  "DIMPA_init h conv =
     \<lparr>hop = h, w_s = replicate (h + 1) 1, w_t = replicate (h + 1) 1, conv_layer = conv\<rparr>"

text \<open>
  The body of \<^verbatim>\<open>for h in range(1, 1 + self._hop)\<close> on the state
  \<^verbatim>\<open>(curr_s, curr_t, feat_s, feat_t)\<close>.
\<close>

definition dimpa_hop ::
  "'a::{plus,times} DIMPA \<Rightarrow> edge_index \<Rightarrow> edge_index \<Rightarrow> 'a list \<Rightarrow>
   'a mat \<times> 'a mat \<times> 'a mat \<times> 'a mat \<Rightarrow> nat \<Rightarrow>
   py_error + ('a mat \<times> 'a mat \<times> 'a mat \<times> 'a mat)" where
  "dimpa_hop d edge_index edge_index_t edge_weight st h =
     (case st of (curr_s, curr_t, feat_s, feat_t) \<Rightarrow>
        let curr_s = conv_layer d curr_s edge_index edge_weight;
            curr_t = conv_layer d curr_t edge_index_t edge_weight
        in py_bind (w_at (w_s d) h) (\<lambda>ws.
           py_bind (iadd feat_s (scale ws curr_s)) (\<lambda>feat_s.
           py_bind (w_at (w_t d) h) (\<lambda>wt.
           py_bind (iadd feat_t (scale wt curr_t)) (\<lambda>feat_t.
             Inr (curr_s, curr_t, feat_s, feat_t))))))"

fun dimpa_hops ::
  "'a::{plus,times} DIMPA \<Rightarrow> edge_index \<Rightarrow> edge_index \<Rightarrow> 'a list \<Rightarrow> nat list \<Rightarrow>
   'a mat \<times> 'a mat \<times> 'a mat \<times> 'a mat \<Rightarrow>
   py_error + ('a mat \<times> 'a mat \<times> 'a mat \<times> 'a mat)" where
  "dimpa_hops d edge_index edge_index_t edge_weight [] st = Inr st"
| "dimpa_hops d edge_index edge_index_t edge_weight (h # hs) st =
     py_bind (dimpa_hop d edge_index edge_index_t edge_weight st h)
       (dimpa_hops d edge_index edge_index_t edge_weight hs)"

definition DIMPA_forward ::
  "'a::{plus,times} DIMPA \<Rightarrow> 'a mat \<Rightarrow> 'a mat \<Rightarrow> edge_index \<Rightarrow> 'a list \<Rightarrow> py_error + 'a mat" where
  "DIMPA_forward d x_s x_t edge_index edge_weight =
     py_bind (w_at (w_s d) 0) (\<lambda>ws0.
     py_bind (w_at (w_t d) 0) (\<lambda>wt0.
       let feat_s = scale ws0 x_s;
           feat_t = scale wt0 x_t;
           curr_s = x_s;
           curr_t = x_t;
           edge_index_t = (snd edge_index, fst edge_index)
       in py_bind (dimpa_hops d edge_index edge_index_t edge_weight [1..<1 + hop d]
                     (curr_s, curr_t, feat_s, feat_t))
            (\<lambda>(curr_s, curr_t, feat_s, feat_t). torch_cat1 [feat_s, feat_t])))"

text \<open>
  The description of the result in closed form: the sum over the hops \<open>0..H\<close> of
  \<open>w[h]\<close> times the \<open>h\<close>-fold application of the propagation \<open>f\<close>, taken from left to
  right, and the concatenation of two tensors along the columns.
\<close>

definition hop_sum :: "'a::{plus,times} list \<Rightarrow> ('a mat \<Rightarrow> 'a mat) \<Rightarrow> 'a mat \<Rightarrow> nat \<Rightarrow> 'a mat" where
  "hop_sum w f y H = foldl madd (scale (w ! 0) y) (map (\<lambda>h. scale (w ! h) ((f ^^ h) y)) [1..<Suc H])"

definition hcat :: "'a mat \<Rightarrow> 'a mat \<Rightarrow> 'a mat" where
  "hcat a b = \<lparr>ncols = ncols a + ncols b, rows = map2 (@) (rows a) (rows b)\<rparr>"

text \<open>A layer that returns a tensor of the shape of its argument.\<close>

definition keeps_shape :: "('a mat \<Rightarrow> 'a mat) \<Rightarrow> bool" where
  "keeps_shape f = (\<forall>y. nrows (f y) = nrows y \<and> ncols (f y) = ncols y \<and> (wf_mat y \<longrightarrow> wf_mat (f y)))"

subsection \<open>The module\<close>

record 'a DIGRAC =
  num_clusters :: nat
  w_s0 :: "'a mat"
  w_s1 :: "'a mat"
  w_t0 :: "'a mat"
  w_t1 :: "'a mat"
  dimpa :: "'a DIMPA"
  bias :: "'a list"
  W_prob :: "'a mat"

text \<open>The shapes \<^verbatim>\<open>__init__\<close> gives to the parameters.\<close>

definition DIGRAC_shapes :: "nat \<Rightarrow> nat \<Rightarrow> nat \<Rightarrow> 'a DIGRAC \<Rightarrow> bool" where
  "DIGRAC_shapes nfeat hidden nclass m =
     (num_clusters m = nclass
      \<and> nrows (w_s0 m) = nfeat \<and> ncols (w_s0 m) = hidden
      \<and> nrows (w_s1 m) = hidden \<and> ncols (w_s1 m) = hidden
      \<and> nrows (w_t0 m) = nfeat \<and> ncols (w_t0 m) = hidden
      \<and> nrows (w_t1 m) = hidden \<and> ncols (w_t1 m) = hidden
      \<and> length (w_s (dimpa m)) = hop (dimpa m) + 1
      \<and> length (w_t (dimpa m)) = hop (dimpa m) + 1
      \<and> length (bias m) = nclass
      \<and> nrows (W_prob m) = 2 * hidden \<and> ncols (W_prob m) = nclass)"

text \<open>
  The perceptron of lines 117 to 120, and again of lines 122 to 125 with the target
  weights; \<open>c\<close> numbers the dropout call.
\<close>

definition mlp2 :: "'a torch \<Rightarrow> nat \<Rightarrow> 'a mat \<Rightarrow> 'a mat \<Rightarrow> 'a mat \<Rightarrow> py_error + 'a mat" where
  "mlp2 T c features w0 w1 =
     py_bind (torch_mm T features w0) (\<lambda>y.
       let y = relu_mat T y;
           y = dropout_mat T c y
       in torch_mm T y w1)"

definition DIGRAC_forward ::
  "'a::{plus,times} torch \<Rightarrow> 'a DIGRAC \<Rightarrow> edge_index \<Rightarrow> 'a list \<Rightarrow> 'a mat \<Rightarrow>
   py_error + ('a mat \<times> 'a mat \<times> nat list \<times> 'a mat)" where
  "DIGRAC_forward T m edge_index edge_weight features =
     py_bind (mlp2 T 0 features (w_s0 m) (w_s1 m)) (\<lambda>x_s.
     py_bind (mlp2 T 1 features (w_t0 m) (w_t1 m)) (\<lambda>x_t.
     py_bind (DIMPA_forward (dimpa m) x_s x_t edge_index edge_weight) (\<lambda>z.
     py_bind (torch_mm T z (W_prob m)) (\<lambda>output.
     py_bind (add_bias output (bias m)) (\<lambda>output.
     py_bind (argmax_dim1 T output) (\<lambda>predictions_cluster.
       let prob = rowwise (softmax_row T) output;
           output = rowwise (log_softmax_row T) output
       in Inr (rowwise (normalize_row T) z, output, predictions_cluster, prob)))))))"

subsection \<open>The kernels in exact arithmetic\<close>

text \<open>
  The kernels of the framework are not part of the sources. The definitions below read
  the tensors as tensors of real numbers and the kernels in exact arithmetic, as the
  framework documents them; rounding is not part of this reading.
\<close>

text \<open>
  Modelled from the spec: \<^verbatim>\<open>F.softmax(x, dim=1)\<close> is missing. The spec calls it the
  standard normalised-score transformation over the cluster logits, with rows that sum
  to 1: entry \<open>i\<close> of a row is \<open>exp x\<^sub>i\<close> divided by the sum of \<open>exp x\<^sub>j\<close> over the row.
\<close>

definition softmax_1d :: "real list \<Rightarrow> real list" where
  "softmax_1d r = map (\<lambda>a. exp a / sum_list (map exp r)) r"

text \<open>
  Modelled from the spec: \<^verbatim>\<open>F.log_softmax(x, dim=1)\<close> is missing. By the spec it is the
  entrywise logarithm of the softmax output.
\<close>

definition log_softmax_1d :: "real list \<Rightarrow> real list" where
  "log_softmax_1d r = map (\<lambda>a. ln (exp a / sum_list (map exp r))) r"

text \<open>
  Modelled from the spec: \<^verbatim>\<open>torch.argmax(x, dim=1)\<close> is missing. It is the arg-max of a
  row: the index of its maximal value, the first one when the maximum is attained more
  than once.
\<close>

definition argmax_1d :: "real list \<Rightarrow> nat" where
  "argmax_1d r = length (takeWhile (\<lambda>a. a \<noteq> Max (set r)) r)"

text \<open>
  Modelled from the spec: \<^verbatim>\<open>F.normalize(z)\<close> is missing. It is the L2 normalisation of a
  row: every entry is divided by the Euclidean norm of the row, or by \<open>10\<^sup>-\<^sup>1\<^sup>2\<close> when
  the norm is smaller than that.
\<close>

definition normalize_1d :: "real list \<Rightarrow> real list" where
  "normalize_1d r = map (\<lambda>a. a / max (sqrt (sum_list (map (\<lambda>b. \<bar>b\<bar> ^ 2) r))) (1 / 10 ^ 12)) r"

text \<open>
  Modelled from the spec: \<^verbatim>\<open>torch.mm\<close> and \<^verbatim>\<open>torch.nn.ReLU\<close> are missing. The inner
  product of a row and a column is the sum of the products of their entries, and the
  rectifier is the maximum of \<open>0\<close> and its argument. The dropout masks stay open.
\<close>

definition exact_torch :: "(nat \<Rightarrow> nat \<Rightarrow> nat \<Rightarrow> real \<Rightarrow> real) \<Rightarrow> real torch" where
  "exact_torch dr =
     \<lparr>dot = (\<lambda>a b. sum_list (map2 (*) a b)), relu = max 0, dropout = dr,
      argmax_row = argmax_1d, softmax_row = softmax_1d, log_softmax_row = log_softmax_1d,
      normalize_row = normalize_1d\<rparr>"

text \<open>
  The logits in closed form: entry \<open>(i, j)\<close> of \<open>z \<cdot> W + b\<close> is the sum over \<open>k\<close> of
  \<open>z\<^sub>i\<^sub>k W\<^sub>k\<^sub>j\<close>, plus \<open>b\<^sub>j\<close>.
\<close>

definition linear_logits :: "real mat \<Rightarrow> real mat \<Rightarrow> real list \<Rightarrow> real mat" where
  "linear_logits z W b =
     \<lparr>ncols = length b,
      rows = map (\<lambda>r. map (\<lambda>j. (\<Sum>k<nrows W. r ! k * rows W ! k ! j) + b ! j) [0..<length b]) (rows z)\<rparr>"

subsection \<open>An example\<close>

text \<open>
  A module with one feature, one hidden unit, two clusters and one hop, a dropout that
  doubles the entries of the second call, and two nodes.
\<close>

definition ex_module :: "real DIGRAC" where
  "ex_module =
     \<lparr>num_clusters = 2,
      w_s0 = \<lparr>ncols = 1, rows = [[1]]\<rparr>, w_s1 = \<lparr>ncols = 1, rows = [[1]]\<rparr>,
      w_t0 = \<lparr>ncols = 1, rows = [[-1]]\<rparr>, w_t1 = \<lparr>ncols = 1, rows = [[1]]\<rparr>,
      dimpa = \<lparr>hop = 1, w_s = [1, 2], w_t = [1, 1], conv_layer = (\<lambda>y ei ew. y)\<rparr>,
      bias = [0, 1], W_prob = \<lparr>ncols = 2, rows = [[1, 0], [0, 1]]\<rparr>\<rparr>"

definition ex_dropout :: "nat \<Rightarrow> nat \<Rightarrow> nat \<Rightarrow> real \<Rightarrow> real" where
  "ex_dropout c i j a = (if c = 1 then 2 * a else a)"

definition ex_features :: "real mat" where
  "ex_features = \<lparr>ncols = 1, rows = [[1], [-1]]\<rparr>"

section \<open>Properties of the triad counts\<close>

text \<open>
  Claim C5. The sixteen counts are symmetric under swapping the two nodes: the first
  block of \<open>get_tri_features u v\<close> is the third block of \<open>get_tri_features v u\<close> with the
  two mixed-sign entries exchanged, and in the second and the fourth block the swap
  exchanges the two mixed-sign entries and fixes the two same-sign entries. Positions
  0..3 are the block d1, 4..7 d2, 8..11 d3 and 12..15 d4.
\<close>

theorem tri_features_swap:
  fixes u v :: int and r :: r_edgelist
  defines "c \<equiv> fst (get_tri_features u v r)" and "c' \<equiv> fst (get_tri_features v u r)"
  shows "length c = 16 \<and> length c' = 16
    \<and> c ! 0 = c' ! 8 \<and> c ! 1 = c' ! 10 \<and> c ! 2 = c' ! 9 \<and> c ! 3 = c' ! 11
    \<and> c ! 4 = c' ! 4 \<and> c ! 5 = c' ! 6 \<and> c ! 6 = c' ! 5 \<and> c ! 7 = c' ! 7
    \<and> c ! 12 = c' ! 12 \<and> c ! 13 = c' ! 14 \<and> c ! 14 = c' ! 13 \<and> c ! 15 = c' ! 15"
proof -
  obtain pi po ni no where r: "r = (pi, po, ni, no)"
    by (cases r) auto
  have c: "c = [isect_len (dd_get po u) (dd_get pi v), isect_len (dd_get po u) (dd_get ni v),
      isect_len (dd_get no u) (dd_get pi v), isect_len (dd_get no u) (dd_get ni v),
      isect_len (dd_get po u) (dd_get po v), isect_len (dd_get po u) (dd_get no v),
      isect_len (dd_get no u) (dd_get po v), isect_len (dd_get no u) (dd_get no v),
      isect_len (dd_get pi u) (dd_get po v), isect_len (dd_get pi u) (dd_get no v),
      isect_len (dd_get ni u) (dd_get po v), isect_len (dd_get ni u) (dd_get no v),
      isect_len (dd_get pi u) (dd_get pi v), isect_len (dd_get pi u) (dd_get ni v),
      isect_len (dd_get ni u) (dd_get pi v), isect_len (dd_get ni u) (dd_get ni v)]"
    by (simp add: c_def r get_tri_features_def)
  have c': "c' = [isect_len (dd_get po v) (dd_get pi u), isect_len (dd_get po v) (dd_get ni u),
      isect_len (dd_get no v) (dd_get pi u), isect_len (dd_get no v) (dd_get ni u),
      isect_len (dd_get po v) (dd_get po u), isect_len (dd_get po v) (dd_get no u),
      isect_len (dd_get no v) (dd_get po u), isect_len (dd_get no v) (dd_get no u),
      isect_len (dd_get pi v) (dd_get po u), isect_len (dd_get pi v) (dd_get no u),
      isect_len (dd_get ni v) (dd_get po u), isect_len (dd_get ni v) (dd_get no u),
      isect_len (dd_get pi v) (dd_get pi u), isect_len (dd_get pi v) (dd_get ni u),
      isect_len (dd_get ni v) (dd_get pi u), isect_len (dd_get ni v) (dd_get ni u)]"
    by (simp add: c'_def r get_tri_features_def)
  show ?thesis
    unfolding c c' by (simp add: isect_len_def Int_commute)
qed

section \<open>Properties of the adjacency derivations\<close>

text \<open>
  Reading a key changes no stored set; adding an element changes the set of one key
  and keeps the keys distinct.
\<close>

lemma dd_get_touch: "dd_get (dd_touch d k) = dd_get d"
proof
  fix k'
  show "dd_get (dd_touch d k) k' = dd_get d k'"
    by (cases "map_of d k"; cases "map_of d k'") (simp_all add: dd_get_def dd_touch_def map_add_def)
qed

lemma dd_get_add:
  "dd_get (dd_add d k x) k' = (if k' = k then List.insert x (dd_get d k) else dd_get d k')"
  by (simp add: dd_get_def dd_add_def update_conv')

lemma adj_has_add:
  "adj_has (dd_add d k x) u v \<longleftrightarrow> adj_has d u v \<or> (u = k \<and> v = x)"
  by (auto simp: adj_has_def dd_get_add)

lemma distinct_keys_add: "distinct (map fst d) \<Longrightarrow> distinct (map fst (dd_add d k x))"
  by (simp add: dd_add_def distinct_update)

lemma set_adj_edges:
  assumes "distinct (map fst d)"
  shows "(u, v) \<in> set (adj_edges d) \<longleftrightarrow> adj_has d u v"
proof -
  have "(u, v) \<in> set (adj_edges d) \<longleftrightarrow> (\<exists>bs. (u, bs) \<in> set d \<and> v \<in> set bs)"
    by (auto simp: adj_edges_def)
  also have "\<dots> \<longleftrightarrow> (\<exists>bs. map_of d u = Some bs \<and> v \<in> set bs)"
    using assms by simp
  also have "\<dots> \<longleftrightarrow> adj_has d u v"
    by (cases "map_of d u") (simp_all add: adj_has_def dd_get_def)
  finally show ?thesis .
qed

text \<open>
  The counts depend on the sets stored only, and \<^verbatim>\<open>get_tri_features\<close> leaves them as
  they are.
\<close>

lemma r_same_refl: "r_same r r"
  by (cases r) (simp add: r_same_def)

lemma r_same_trans: "r_same r r' \<Longrightarrow> r_same r' r'' \<Longrightarrow> r_same r r''"
  by (cases r; cases r'; cases r'') (simp add: r_same_def)

lemma tri_counts_same: "r_same r r' \<Longrightarrow> fst (get_tri_features u v r) = fst (get_tri_features u v r')"
  by (cases r; cases r') (simp add: r_same_def get_tri_features_def)

lemma tri_touch_same: "r_same r (snd (get_tri_features u v r))"
  by (cases r) (simp add: r_same_def get_tri_features_def dd_get_touch)

lemma length_tri_counts: "length (fst (get_tri_features u v r)) = 16"
  by (cases r) (simp add: get_tri_features_def)

text \<open>The loop over the counts adds the pair to the dictionaries of the positive counts.\<close>

lemma foldl_mark:
  "length (foldl (\<lambda>adds (index, v). if v > 0 then adds[index := dd_add (adds ! index) i j] else adds)
       a (enumerate n vs)) = length a \<and>
   (k < length a \<longrightarrow>
    foldl (\<lambda>adds (index, v). if v > 0 then adds[index := dd_add (adds ! index) i j] else adds)
       a (enumerate n vs) ! k =
    (if n \<le> k \<and> k < n + length vs \<and> 0 < vs ! (k - n) then dd_add (a ! k) i j else a ! k))"
proof (induction vs arbitrary: a n)
  case Nil
  then show ?case by auto
next
  case (Cons x xs)
  show ?case
    using Cons.IH [of "if x > 0 then a[n := dd_add (a ! n) i j] else a" "Suc n"]
    by (auto simp: nth_Cons' nth_list_update Suc_diff_le)
qed

lemma length_tri_mark: "length (tri_mark adds vl i j) = length adds"
  unfolding tri_mark_def using foldl_mark [of i j adds 0 vl] by simp

lemma nth_tri_mark:
  "k < length adds \<Longrightarrow>
   tri_mark adds vl i j ! k = (if k < length vl \<and> 0 < vl ! k then dd_add (adds ! k) i j else adds ! k)"
  unfolding tri_mark_def using foldl_mark [of i j adds 0 vl k] by simp

text \<open>
  Invariant of the loop over the out-edges: the base dictionaries store what they
  stored, and a derived dictionary holds the visited pairs whose count is positive.
\<close>

lemma tri_loop:
  assumes "foldl tri_step (adds0, r0) es = (adds, r)"
  shows "length adds = length adds0 \<and> r_same r0 r \<and>
    (\<forall>k<length adds0. \<forall>u v. adj_has (adds ! k) u v \<longleftrightarrow>
        adj_has (adds0 ! k) u v \<or>
        ((u, v) \<in> set es \<and> k < 16 \<and> 0 < fst (get_tri_features u v r0) ! k))"
  using assms
proof (induction es arbitrary: adds r rule: rev_induct)
  case Nil
  then show ?case by (simp add: r_same_refl)
next
  case (snoc e es)
  obtain adds1 r1 where mid: "foldl tri_step (adds0, r0) es = (adds1, r1)"
    by (cases "foldl tri_step (adds0, r0) es") auto
  obtain i j where e: "e = (i, j)" by (cases e) auto
  note IH = snoc.IH [OF mid]
  from snoc.prems have "tri_step (adds1, r1) (i, j) = (adds, r)"
    by (simp add: mid e)
  then have adds: "adds = tri_mark adds1 (fst (get_tri_features i j r1)) i j"
    and r: "r = snd (get_tri_features i j r1)"
    by (auto simp: tri_step_def split: prod.splits)
  have cnt: "fst (get_tri_features i j r1) = fst (get_tri_features i j r0)"
    using IH tri_counts_same [of r0 r1] by simp
  have len: "length adds = length adds0"
    using IH by (simp add: adds length_tri_mark)
  have same: "r_same r0 r"
    using IH tri_touch_same [of r1 i j] r_same_trans [of r0 r1 r] by (simp add: r)
  have mem: "adj_has (adds ! k) u v \<longleftrightarrow>
        adj_has (adds0 ! k) u v \<or>
        ((u, v) \<in> set (es @ [e]) \<and> k < 16 \<and> 0 < fst (get_tri_features u v r0) ! k)"
    if k: "k < length adds0" for k u v
  proof -
    have k1: "k < length adds1" using IH k by simp
    have old: "adj_has (adds1 ! k) u v \<longleftrightarrow>
        adj_has (adds0 ! k) u v \<or>
        ((u, v) \<in> set es \<and> k < 16 \<and> 0 < fst (get_tri_features u v r0) ! k)"
      using IH k by blast
    show ?thesis
      unfolding adds nth_tri_mark [OF k1] cnt length_tri_counts
      by (auto simp: adj_has_add old e)
  qed
  from len same mem show ?case by blast
qed

text \<open>The six base dictionaries after the loop over the signed edge list.\<close>

lemma add_signed_edge_fields:
  "pos_edgelist (add_signed_edge b (i, j, s)) =
     (if s > 0 then dd_add (dd_add (pos_edgelist b) i j) j i else pos_edgelist b)"
  "pos_out_edgelist (add_signed_edge b (i, j, s)) =
     (if s > 0 then dd_add (pos_out_edgelist b) i j else pos_out_edgelist b)"
  "pos_in_edgelist (add_signed_edge b (i, j, s)) =
     (if s > 0 then dd_add (pos_in_edgelist b) j i else pos_in_edgelist b)"
  "neg_edgelist (add_signed_edge b (i, j, s)) =
     (if s < 0 then dd_add (dd_add (neg_edgelist b) i j) j i else neg_edgelist b)"
  "neg_out_edgelist (add_signed_edge b (i, j, s)) =
     (if s < 0 then dd_add (neg_out_edgelist b) i j else neg_out_edgelist b)"
  "neg_in_edgelist (add_signed_edge b (i, j, s)) =
     (if s < 0 then dd_add (neg_in_edgelist b) j i else neg_in_edgelist b)"
  by (simp_all add: add_signed_edge_def Let_def)

lemma add_signed_edge_zero: "add_signed_edge b (i, j, 0) = b"
  by (simp add: add_signed_edge_def)

lemma step_views:
  "adj_has (pos_edgelist (add_signed_edge b e)) u v \<longleftrightarrow>
     adj_has (pos_edgelist b) u v \<or> (\<exists>s>0. e = (u, v, s) \<or> e = (v, u, s))"
  "adj_has (pos_out_edgelist (add_signed_edge b e)) u v \<longleftrightarrow>
     adj_has (pos_out_edgelist b) u v \<or> (\<exists>s>0. e = (u, v, s))"
  "adj_has (pos_in_edgelist (add_signed_edge b e)) u v \<longleftrightarrow>
     adj_has (pos_in_edgelist b) u v \<or> (\<exists>s>0. e = (v, u, s))"
  "adj_has (neg_edgelist (add_signed_edge b e)) u v \<longleftrightarrow>
     adj_has (neg_edgelist b) u v \<or> (\<exists>s<0. e = (u, v, s) \<or> e = (v, u, s))"
  "adj_has (neg_out_edgelist (add_signed_edge b e)) u v \<longleftrightarrow>
     adj_has (neg_out_edgelist b) u v \<or> (\<exists>s<0. e = (u, v, s))"
  "adj_has (neg_in_edgelist (add_signed_edge b e)) u v \<longleftrightarrow>
     adj_has (neg_in_edgelist b) u v \<or> (\<exists>s<0. e = (v, u, s))"
  by (cases e; auto simp: add_signed_edge_fields adj_has_add)+

lemma fold_views:
  "adj_has (pos_edgelist (foldl add_signed_edge b es)) u v \<longleftrightarrow>
     adj_has (pos_edgelist b) u v \<or> (\<exists>s>0. (u, v, s) \<in> set es \<or> (v, u, s) \<in> set es)"
  "adj_has (pos_out_edgelist (foldl add_signed_edge b es)) u v \<longleftrightarrow>
     adj_has (pos_out_edgelist b) u v \<or> (\<exists>s>0. (u, v, s) \<in> set es)"
  "adj_has (pos_in_edgelist (foldl add_signed_edge b es)) u v \<longleftrightarrow>
     adj_has (pos_in_edgelist b) u v \<or> (\<exists>s>0. (v, u, s) \<in> set es)"
  "adj_has (neg_edgelist (foldl add_signed_edge b es)) u v \<longleftrightarrow>
     adj_has (neg_edgelist b) u v \<or> (\<exists>s<0. (u, v, s) \<in> set es \<or> (v, u, s) \<in> set es)"
  "adj_has (neg_out_edgelist (foldl add_signed_edge b es)) u v \<longleftrightarrow>
     adj_has (neg_out_edgelist b) u v \<or> (\<exists>s<0. (u, v, s) \<in> set es)"
  "adj_has (neg_in_edgelist (foldl add_signed_edge b es)) u v \<longleftrightarrow>
     adj_has (neg_in_edgelist b) u v \<or> (\<exists>s<0. (v, u, s) \<in> set es)"
  by (induction es arbitrary: b; auto simp: step_views)+

lemma fold_distinct_out:
  "distinct (map fst (pos_out_edgelist b)) \<Longrightarrow>
     distinct (map fst (pos_out_edgelist (foldl add_signed_edge b es)))"
  "distinct (map fst (neg_out_edgelist b)) \<Longrightarrow>
     distinct (map fst (neg_out_edgelist (foldl add_signed_edge b es)))"
  by (induction es arbitrary: b; auto simp: add_signed_edge_fields distinct_keys_add)+

lemma adj_has_empty: "adj_has [] u v = False"
  by (simp add: adj_has_def dd_get_def)

lemma r_same_adj_has:
  "r_same (a, b, c, d) (a', b', c', d') \<Longrightarrow>
     adj_has a' = adj_has a \<and> adj_has b' = adj_has b \<and> adj_has c' = adj_has c \<and> adj_has d' = adj_has d"
  by (auto simp: r_same_def adj_has_def fun_eq_iff)

lemma build_adj_lists_char:
  fixes es :: "signed_edge list"
  defines "b \<equiv> foldl add_signed_edge empty_edgelists es"
  defines "L \<equiv> build_adj_lists es"
  defines "r0 \<equiv> (pos_in_edgelist b, pos_out_edgelist b, neg_in_edgelist b, neg_out_edgelist b)"
  shows "length L = 38"
    and "L ! 0 = pos_edgelist b" and "L ! 3 = neg_edgelist b"
    and "r_same r0 (L ! 2, L ! 1, L ! 5, L ! 4)"
    and "k < 16 \<Longrightarrow> adj_has (L ! (6 + k)) u v \<longleftrightarrow>
           adj_has (pos_out_edgelist b) u v \<and> 0 < fst (get_tri_features u v r0) ! k"
    and "k < 16 \<Longrightarrow> adj_has (L ! (22 + k)) u v \<longleftrightarrow>
           adj_has (neg_out_edgelist b) u v \<and> 0 < fst (get_tri_features u v r0) ! k"
proof -
  obtain adds1 r1 where l1:
    "foldl tri_step (replicate 16 [], r0) (adj_edges (pos_out_edgelist b)) = (adds1, r1)"
    by (cases "foldl tri_step (replicate 16 [], r0) (adj_edges (pos_out_edgelist b))") auto
  obtain adds2 pi' po' ni' no' where l2:
    "foldl tri_step (replicate 16 [], r1) (adj_edges (neg_out_edgelist b)) = (adds2, (pi', po', ni', no'))"
    by (cases "foldl tri_step (replicate 16 [], r1) (adj_edges (neg_out_edgelist b))") auto
  have L: "L = [pos_edgelist b, po', pi', neg_edgelist b, no', ni'] @ adds1 @ adds2"
    using l1 l2 by (simp add: L_def build_adj_lists_def Let_def b_def r0_def)
  note t1 = tri_loop [OF l1]
  note t2 = tri_loop [OF l2]
  have len1: "length adds1 = 16" and len2: "length adds2 = 16"
    using t1 t2 by simp_all
  have s1: "r_same r0 r1" using t1 by simp
  have s2: "r_same r0 (pi', po', ni', no')"
    using t1 t2 r_same_trans by blast
  have dpo: "distinct (map fst (pos_out_edgelist b))" and dno: "distinct (map fst (neg_out_edgelist b))"
    unfolding b_def by (rule fold_distinct_out; simp add: empty_edgelists_def)+
  show "length L = 38" by (simp add: L len1 len2)
  show "L ! 0 = pos_edgelist b" by (simp add: L)
  show "L ! 3 = neg_edgelist b" by (simp add: L)
  show "r_same r0 (L ! 2, L ! 1, L ! 5, L ! 4)" using s2 by (simp add: L)
  show "adj_has (L ! (6 + k)) u v \<longleftrightarrow>
           adj_has (pos_out_edgelist b) u v \<and> 0 < fst (get_tri_features u v r0) ! k" if "k < 16"
  proof -
    have "L ! (6 + k) = adds1 ! k"
      using that by (simp add: L nth_append len1)
    moreover have "adj_has (adds1 ! k) u v \<longleftrightarrow>
        (u, v) \<in> set (adj_edges (pos_out_edgelist b)) \<and> 0 < fst (get_tri_features u v r0) ! k"
      using t1 that by (simp add: adj_has_empty)
    ultimately show ?thesis by (simp add: set_adj_edges [OF dpo])
  qed
  show "adj_has (L ! (22 + k)) u v \<longleftrightarrow>
           adj_has (neg_out_edgelist b) u v \<and> 0 < fst (get_tri_features u v r0) ! k" if "k < 16"
  proof -
    have "L ! (22 + k) = adds2 ! k"
      using that by (simp add: L nth_append len1 len2)
    moreover have "adj_has (adds2 ! k) u v \<longleftrightarrow>
        (u, v) \<in> set (adj_edges (neg_out_edgelist b)) \<and> 0 < fst (get_tri_features u v r1) ! k"
      using t2 that by (simp add: adj_has_empty)
    ultimately show ?thesis
      by (simp add: set_adj_edges [OF dno] tri_counts_same [OF s1])
  qed
qed

text \<open>
  Claim C3. \<^verbatim>\<open>build_adj_lists\<close> returns, after the six base dictionaries, thirty-two
  derived ones. For a pair \<open>(u, v)\<close> of the positive out-edge dictionary (position 1
  of the result) and every \<open>k < 16\<close>, the pair is in the derived dictionary at
  position \<open>6 + k\<close> exactly when the \<open>k\<close>-th count of \<^verbatim>\<open>get_tri_features(u, v)\<close> is
  positive; for a pair of the negative out-edge dictionary (position 4) the same holds
  with the derived dictionary at position \<open>22 + k\<close>.
\<close>

theorem tri_subsets:
  fixes es :: "signed_edge list"
  defines "L \<equiv> build_adj_lists es"
  defines "r \<equiv> (L ! 2, L ! 1, L ! 5, L ! 4)"
  assumes k: "k < 16"
  shows "length (drop 6 L) = 32
    \<and> (adj_has (L ! 1) u v \<longrightarrow>
         (adj_has (L ! (6 + k)) u v \<longleftrightarrow> 0 < fst (get_tri_features u v r) ! k))
    \<and> (adj_has (L ! 4) u v \<longrightarrow>
         (adj_has (L ! (22 + k)) u v \<longleftrightarrow> 0 < fst (get_tri_features u v r) ! k))"
proof -
  let ?b = "foldl add_signed_edge empty_edgelists es"
  let ?r0 = "(pos_in_edgelist ?b, pos_out_edgelist ?b, neg_in_edgelist ?b, neg_out_edgelist ?b)"
  note c = build_adj_lists_char [where es = es]
  have same: "r_same ?r0 r"
    unfolding r_def L_def by (rule c(4))
  have cnt: "fst (get_tri_features u v r) = fst (get_tri_features u v ?r0)"
    using tri_counts_same [OF same] by simp
  have views: "adj_has (L ! 1) = adj_has (pos_out_edgelist ?b)" "adj_has (L ! 4) = adj_has (neg_out_edgelist ?b)"
    using r_same_adj_has [OF same [unfolded r_def]] by simp_all
  show ?thesis
    unfolding cnt views using c(1) c(5) [OF k] c(6) [OF k]
    by (simp add: L_def)
qed

theorem tri_subsets_witness:
  "(0::nat) < 16
   \<and> adj_has (build_adj_lists [(0, 1, 1), (1, 2, 1), (0, 2, 1), (0, 2, -1)] ! 1) 0 2
   \<and> adj_has (build_adj_lists [(0, 1, 1), (1, 2, 1), (0, 2, 1), (0, 2, -1)] ! 4) 0 2
   \<and> adj_has (build_adj_lists [(0, 1, 1), (1, 2, 1), (0, 2, 1), (0, 2, -1)] ! (6 + 0)) 0 2
   \<and> adj_has (build_adj_lists [(0, 1, 1), (1, 2, 1), (0, 2, 1), (0, 2, -1)] ! (22 + 0)) 0 2"
proof -
  let ?L = "build_adj_lists [(0, 1, 1), (1, 2, 1), (0, 2, 1), (0, 2, -1)]"
  have h1: "adj_has (?L ! 1) 0 2" by code_simp
  have h2: "adj_has (?L ! 4) 0 2" by code_simp
  have c: "0 < fst (get_tri_features 0 2 (?L ! 2, ?L ! 1, ?L ! 5, ?L ! 4)) ! 0" by code_simp
  show ?thesis
    using tri_subsets [where k = 0 and es = "[(0, 1, 1), (1, 2, 1), (0, 2, 1), (0, 2, -1)]"
        and u = 0 and v = 2] h1 h2 c
    by simp
qed

text \<open>
  Claim C10. Every derived dictionary is a sub-relation of its base out-edge
  dictionary: a pair of one of the first sixteen is a positive out-edge, a pair of one
  of the last sixteen is a negative out-edge.
\<close>

theorem tri_subsets_within_out_edges:
  fixes es :: "signed_edge list"
  defines "L \<equiv> build_adj_lists es"
  assumes k: "k < 16"
  shows "(adj_has (L ! (6 + k)) u v \<longrightarrow> adj_has (L ! 1) u v)
    \<and> (adj_has (L ! (22 + k)) u v \<longrightarrow> adj_has (L ! 4) u v)"
proof -
  let ?b = "foldl add_signed_edge empty_edgelists es"
  note c = build_adj_lists_char [where es = es]
  have views: "adj_has (L ! 1) = adj_has (pos_out_edgelist ?b)" "adj_has (L ! 4) = adj_has (neg_out_edgelist ?b)"
    using r_same_adj_has [OF c(4)] by (simp_all add: L_def)
  show ?thesis
    unfolding views using c(5) [OF k] c(6) [OF k] by (simp add: L_def)
qed

theorem tri_subsets_within_out_edges_witness:
  "(4::nat) < 16 \<and> (2::nat) < 16
   \<and> adj_has (build_adj_lists [(0, 1, 1), (1, 2, 1), (0, 2, 1), (3, 0, -1), (3, 1, -1)] ! (6 + 4)) 0 1
   \<and> adj_has (build_adj_lists [(0, 1, 1), (1, 2, 1), (0, 2, 1), (3, 0, -1), (3, 1, -1)] ! (22 + 2)) 3 1
   \<and> adj_has (build_adj_lists [(0, 1, 1), (1, 2, 1), (0, 2, 1), (3, 0, -1), (3, 1, -1)] ! 1) 0 1
   \<and> adj_has (build_adj_lists [(0, 1, 1), (1, 2, 1), (0, 2, 1), (3, 0, -1), (3, 1, -1)] ! 4) 3 1"
proof -
  let ?es = "[(0, 1, 1), (1, 2, 1), (0, 2, 1), (3, 0, -1), (3, 1, -1)] :: signed_edge list"
  have h1: "adj_has (build_adj_lists ?es ! (6 + 4)) 0 1" by code_simp
  have h2: "adj_has (build_adj_lists ?es ! (22 + 2)) 3 1" by code_simp
  show ?thesis
    using tri_subsets_within_out_edges [where k = 4 and es = ?es and u = 0 and v = 1]
      tri_subsets_within_out_edges [where k = 2 and es = ?es and u = 3 and v = 1] h1 h2
    by simp
qed

text \<open>
  Claim C4 as stated (the base views plus exactly sixteen triad-derived subsets)
  fails: behind the six base dictionaries the result holds more than sixteen
  dictionaries, and one beyond the sixteenth is inhabited.
\<close>

theorem sixteen_subsets_counterexample:
  "length (drop 6 (build_adj_lists [(0, 1, 1), (1, 2, 1), (0, 2, 1), (3, 0, -1), (3, 1, -1)])) \<noteq> 16
   \<and> adj_has (build_adj_lists [(0, 1, 1), (1, 2, 1), (0, 2, 1), (3, 0, -1), (3, 1, -1)] ! (6 + 16 + 2)) 3 1"
  by code_simp

text \<open>
  Claim C4, amended. The module built by \<^verbatim>\<open>__init__\<close> stores the result of
  \<^verbatim>\<open>build_adj_lists\<close> and the edge tensors made of it; that result has the six base
  views (positive, positive-out, positive-in, negative, negative-out, negative-in
  edges, read off the signed edge list) followed by exactly \<open>16 + 16\<close> triad-derived
  dictionaries.
\<close>

theorem adj_lists_views:
  fixes es :: "signed_edge list" and gat :: "nat \<Rightarrow> 'a mat \<Rightarrow> edges_tensor \<Rightarrow> py_error + 'a mat"
  defines "L \<equiv> build_adj_lists es"
  shows "adj_lists (SiGAT_init n es d_in d_out init_emb rand_emb gat mlp lsp) = L
    \<and> edge_lists (SiGAT_init n es d_in d_out init_emb rand_emb gat mlp lsp) = map map_adj_to_edges L
    \<and> length L = 6 + 16 + 16
    \<and> (adj_has (L ! 0) u v \<longleftrightarrow> (\<exists>s>0. (u, v, s) \<in> set es \<or> (v, u, s) \<in> set es))
    \<and> (adj_has (L ! 1) u v \<longleftrightarrow> (\<exists>s>0. (u, v, s) \<in> set es))
    \<and> (adj_has (L ! 2) u v \<longleftrightarrow> (\<exists>s>0. (v, u, s) \<in> set es))
    \<and> (adj_has (L ! 3) u v \<longleftrightarrow> (\<exists>s<0. (u, v, s) \<in> set es \<or> (v, u, s) \<in> set es))
    \<and> (adj_has (L ! 4) u v \<longleftrightarrow> (\<exists>s<0. (u, v, s) \<in> set es))
    \<and> (adj_has (L ! 5) u v \<longleftrightarrow> (\<exists>s<0. (v, u, s) \<in> set es))"
proof -
  let ?b = "foldl add_signed_edge empty_edgelists es"
  note c = build_adj_lists_char [where es = es]
  note v = r_same_adj_has [OF c(4)]
  have e: "adj_has (pos_edgelist empty_edgelists) u v = False"
    "adj_has (pos_out_edgelist empty_edgelists) u v = False"
    "adj_has (pos_in_edgelist empty_edgelists) u v = False"
    "adj_has (neg_edgelist empty_edgelists) u v = False"
    "adj_has (neg_out_edgelist empty_edgelists) u v = False"
    "adj_has (neg_in_edgelist empty_edgelists) u v = False"
    by (simp_all add: empty_edgelists_def adj_has_empty)
  have "adj_lists (SiGAT_init n es d_in d_out init_emb rand_emb gat mlp lsp) = L"
    "edge_lists (SiGAT_init n es d_in d_out init_emb rand_emb gat mlp lsp) = map map_adj_to_edges L"
    by (simp_all add: SiGAT_init_def Let_def L_def)
  moreover have "length L = 6 + 16 + 16"
    using c(1) by (simp add: L_def)
  moreover have "adj_has (L ! 0) u v \<longleftrightarrow> (\<exists>s>0. (u, v, s) \<in> set es \<or> (v, u, s) \<in> set es)"
    unfolding L_def c(2) by (simp add: fold_views e)
  moreover have "adj_has (L ! 3) u v \<longleftrightarrow> (\<exists>s<0. (u, v, s) \<in> set es \<or> (v, u, s) \<in> set es)"
    unfolding L_def c(3) by (simp add: fold_views e)
  moreover have "adj_has (L ! 1) u v \<longleftrightarrow> (\<exists>s>0. (u, v, s) \<in> set es)"
    "adj_has (L ! 2) u v \<longleftrightarrow> (\<exists>s>0. (v, u, s) \<in> set es)"
    "adj_has (L ! 4) u v \<longleftrightarrow> (\<exists>s<0. (u, v, s) \<in> set es)"
    "adj_has (L ! 5) u v \<longleftrightarrow> (\<exists>s<0. (v, u, s) \<in> set es)"
    unfolding L_def using v by (simp_all add: fold_views e)
  ultimately show ?thesis by blast
qed

lemma fold_drop_zero:
  "foldl add_signed_edge b (filter (\<lambda>(i, j, s). s \<noteq> 0) es) = foldl add_signed_edge b es"
  by (induction es arbitrary: b) (auto simp: add_signed_edge_zero)

lemma filter_sign_drop_zero:
  "filter (\<lambda>(i, j, s). s > 0) (filter (\<lambda>(i, j, s). s \<noteq> 0) es) = filter (\<lambda>(i, j, s). s > 0) es"
  "filter (\<lambda>(i, j, s). s < 0) (filter (\<lambda>(i, j, s). s \<noteq> 0) es) = filter (\<lambda>(i, j, s). s < 0) es"
  for es :: "signed_edge list"
  by (induction es) auto

text \<open>
  Claim C9. Edges whose sign is exactly \<open>0\<close> are dropped everywhere: removing them from
  the signed edge list changes neither the adjacency lists nor any field of the module
  (in particular neither \<^verbatim>\<open>pos_edge_index\<close> nor \<^verbatim>\<open>neg_edge_index\<close>).
\<close>

theorem zero_sign_edges_dropped:
  fixes es :: "signed_edge list" and gat :: "nat \<Rightarrow> 'a mat \<Rightarrow> edges_tensor \<Rightarrow> py_error + 'a mat"
  defines "es' \<equiv> filter (\<lambda>(i, j, s). s \<noteq> 0) es"
  shows "build_adj_lists es = build_adj_lists es'
    \<and> SiGAT_init n es d_in d_out init_emb rand_emb gat mlp lsp
        = SiGAT_init n es' d_in d_out init_emb rand_emb gat mlp lsp"
proof -
  have b: "build_adj_lists (filter (\<lambda>(i, j, s). s \<noteq> 0) es) = build_adj_lists es"
    by (simp add: build_adj_lists_def fold_drop_zero)
  show ?thesis
    unfolding es'_def
    by (simp add: b SiGAT_init_def Let_def filter_sign_drop_zero del: filter_filter)
qed

lemma SiGAT_call_id: "SiGAT_call c m = m"
  by (cases c) (simp_all add: SiGAT_call_def SiGAT_loss_def SiGAT_forward_def Let_def split: prod.splits)

text \<open>
  Claim C8. After any sequence of \<^verbatim>\<open>forward\<close> and \<^verbatim>\<open>loss\<close> calls the adjacency lists,
  the edge tensors made of them and the positive and negative edge indices are the
  ones the constructor stored.
\<close>

theorem calls_keep_adjacency:
  fixes gat :: "nat \<Rightarrow> 'a mat \<Rightarrow> edges_tensor \<Rightarrow> py_error + 'a mat"
    and n d_in d_out :: nat and es :: "signed_edge list" and init_emb rand_emb mlp lsp
  defines "m0 \<equiv> SiGAT_init n es d_in d_out init_emb rand_emb gat mlp lsp"
  shows "adj_lists (SiGAT_calls cs m0) = adj_lists m0
    \<and> edge_lists (SiGAT_calls cs m0) = edge_lists m0
    \<and> pos_edge_index (SiGAT_calls cs m0) = pos_edge_index m0
    \<and> neg_edge_index (SiGAT_calls cs m0) = neg_edge_index m0"
proof -
  have "SiGAT_calls cs m = m" for m :: "'a SiGAT"
    unfolding SiGAT_calls_def by (induction cs arbitrary: m) (simp_all add: SiGAT_call_id)
  then show ?thesis by simp
qed

section \<open>Properties of DIMPA and DIGRAC\<close>

text \<open>Shapes of the tensor operations.\<close>

lemma py_bind_simps [simp]: "py_bind (Inr a) f = f a" "py_bind (Inl e) f = Inl e"
  by (simp_all add: py_bind_def)

lemma shape_scale [simp]: "nrows (scale w y) = nrows y" "ncols (scale w y) = ncols y"
  by (simp_all add: scale_def nrows_def)

lemma wf_scale [simp]: "wf_mat (scale w y) = wf_mat y"
  by (simp add: scale_def wf_mat_def list_all_iff)

lemma shape_madd [simp]: "ncols (madd a b) = ncols a" "nrows b = nrows a \<Longrightarrow> nrows (madd a b) = nrows a"
  by (simp_all add: madd_def nrows_def)

lemma wf_madd: "wf_mat a \<Longrightarrow> wf_mat b \<Longrightarrow> ncols b = ncols a \<Longrightarrow> wf_mat (madd a b)"
  by (auto simp: madd_def wf_mat_def list_all_iff set_zip)

lemma iadd_same_shape: "nrows b = nrows a \<Longrightarrow> ncols b = ncols a \<Longrightarrow> iadd a b = Inr (madd a b)"
  by (simp add: iadd_def madd_def expand_to_def)

lemma keeps_shape_funpow:
  assumes "keeps_shape f"
  shows "nrows ((f ^^ h) y) = nrows y" "ncols ((f ^^ h) y) = ncols y" "wf_mat y \<Longrightarrow> wf_mat ((f ^^ h) y)"
  using assms by (induction h; simp add: keeps_shape_def)+

text \<open>
  Invariant of the loop over the hops: after \<open>H\<close> passes the current features are the
  \<open>H\<close>-fold convolutions and the accumulators are the sums up to \<open>H\<close>.
\<close>

lemma hop_sum_0: "hop_sum w f y 0 = scale (w ! 0) y"
  by (simp add: hop_sum_def)

lemma hop_sum_Suc:
  "hop_sum w f y (Suc H) = madd (hop_sum w f y H) (scale (w ! Suc H) ((f ^^ Suc H) y))"
  by (simp add: hop_sum_def)

lemma shape_hop_sum:
  assumes "keeps_shape f"
  shows "nrows (hop_sum w f y H) = nrows y \<and> ncols (hop_sum w f y H) = ncols y
    \<and> (wf_mat y \<longrightarrow> wf_mat (hop_sum w f y H))"
proof (induction H)
  case 0
  show ?case by (simp add: hop_sum_0)
next
  case (Suc H)
  note k = keeps_shape_funpow [OF assms, where h = "Suc H" and y = y]
  from Suc k show ?case
    unfolding hop_sum_Suc by (auto simp: wf_madd simp del: funpow.simps)
qed

lemma dimpa_hops_snoc:
  "dimpa_hops d ei eit ew (hs @ [h]) st = py_bind (dimpa_hops d ei eit ew hs st) (\<lambda>st'. dimpa_hop d ei eit ew st' h)"
proof (induction hs arbitrary: st)
  case Nil
  show ?case by (cases "dimpa_hop d ei eit ew st h") simp_all
next
  case (Cons a hs)
  show ?case by (cases "dimpa_hop d ei eit ew st a") (simp_all add: Cons)
qed

lemma dimpa_hops_closed:
  fixes d :: "'a::{plus,times} DIMPA" and ei eit :: edge_index and ew :: "'a list"
  defines "F \<equiv> \<lambda>y. conv_layer d y ei ew" and "G \<equiv> \<lambda>y. conv_layer d y eit ew"
  assumes F: "keeps_shape F" and G: "keeps_shape G"
    and ws: "H < length (w_s d)" and wt: "H < length (w_t d)"
  shows "dimpa_hops d ei eit ew [1..<Suc H] (x_s, x_t, scale (w_s d ! 0) x_s, scale (w_t d ! 0) x_t)
    = Inr ((F ^^ H) x_s, (G ^^ H) x_t, hop_sum (w_s d) F x_s H, hop_sum (w_t d) G x_t H)"
  using ws wt
proof (induction H)
  case 0
  show ?case by (simp add: hop_sum_0)
next
  case (Suc H)
  then have IH: "dimpa_hops d ei eit ew [1..<Suc H] (x_s, x_t, scale (w_s d ! 0) x_s, scale (w_t d ! 0) x_t)
    = Inr ((F ^^ H) x_s, (G ^^ H) x_t, hop_sum (w_s d) F x_s H, hop_sum (w_t d) G x_t H)"
    by simp
  have upt: "[1..<Suc (Suc H)] = [1..<Suc H] @ [Suc H]" by simp
  note kF = keeps_shape_funpow [OF F, where h = "Suc H" and y = x_s]
    and kG = keeps_shape_funpow [OF G, where h = "Suc H" and y = x_t]
  note sF = shape_hop_sum [OF F, where w = "w_s d" and y = x_s and H = H]
    and sG = shape_hop_sum [OF G, where w = "w_t d" and y = x_t and H = H]
  have cs: "conv_layer d ((F ^^ H) x_s) ei ew = (F ^^ Suc H) x_s"
    and ct: "conv_layer d ((G ^^ H) x_t) eit ew = (G ^^ Suc H) x_t"
    by (simp_all add: F_def G_def)
  have a1: "iadd (hop_sum (w_s d) F x_s H) (scale (w_s d ! Suc H) ((F ^^ Suc H) x_s))
      = Inr (hop_sum (w_s d) F x_s (Suc H))"
    unfolding hop_sum_Suc using kF sF by (intro iadd_same_shape) (simp_all del: funpow.simps)
  have a2: "iadd (hop_sum (w_t d) G x_t H) (scale (w_t d ! Suc H) ((G ^^ Suc H) x_t))
      = Inr (hop_sum (w_t d) G x_t (Suc H))"
    unfolding hop_sum_Suc using kG sG by (intro iadd_same_shape) (simp_all del: funpow.simps)
  have step: "dimpa_hop d ei eit ew ((F ^^ H) x_s, (G ^^ H) x_t, hop_sum (w_s d) F x_s H, hop_sum (w_t d) G x_t H) (Suc H)
    = Inr ((F ^^ Suc H) x_s, (G ^^ Suc H) x_t, hop_sum (w_s d) F x_s (Suc H), hop_sum (w_t d) G x_t (Suc H))"
    using Suc.prems unfolding dimpa_hop_def
    by (simp add: cs ct w_at_def a1 a2 Let_def del: funpow.simps)
  show ?case
    unfolding upt dimpa_hops_snoc IH by (simp add: step del: funpow.simps)
qed

lemma DIMPA_init_lengths:
  "length (w_s (DIMPA_init h conv)) = hop (DIMPA_init h conv) + 1"
  "length (w_t (DIMPA_init h conv)) = hop (DIMPA_init h conv) + 1"
  by (simp_all add: DIMPA_init_def)

lemma torch_cat1_pair:
  assumes "nrows b = nrows a"
  shows "torch_cat1 [a, b] = Inr (hcat a b)"
proof -
  have "map (\<lambda>i. rows a ! i @ rows b ! i) [0..<length (rows a)] = map2 (@) (rows a) (rows b)"
    using assms by (intro nth_equalityI) (simp_all add: nrows_def)
  then show ?thesis using assms by (simp add: hcat_def nrows_def)
qed

lemma shape_hcat [simp]: "ncols (hcat a b) = ncols a + ncols b"
  "nrows b = nrows a \<Longrightarrow> nrows (hcat a b) = nrows a"
  by (simp_all add: hcat_def nrows_def)

lemma wf_hcat: "wf_mat a \<Longrightarrow> wf_mat b \<Longrightarrow> wf_mat (hcat a b)"
  by (auto simp: hcat_def wf_mat_def list_all_iff set_zip)

lemma DIMPA_forward_closed:
  fixes d :: "'a::{plus,times} DIMPA" and edge_index :: edge_index and edge_weight :: "'a list"
  defines "F \<equiv> \<lambda>y. conv_layer d y edge_index edge_weight"
    and "G \<equiv> \<lambda>y. conv_layer d y (snd edge_index, fst edge_index) edge_weight"
  assumes w: "length (w_s d) = hop d + 1" "length (w_t d) = hop d + 1"
    and conv: "keeps_shape F" "keeps_shape G"
    and shape: "nrows x_t = nrows x_s" "ncols x_t = ncols x_s"
    and wf: "wf_mat x_s" "wf_mat x_t"
  shows "DIMPA_forward d x_s x_t edge_index edge_weight
      = Inr (hcat (hop_sum (w_s d) F x_s (hop d)) (hop_sum (w_t d) G x_t (hop d)))
    \<and> nrows (hcat (hop_sum (w_s d) F x_s (hop d)) (hop_sum (w_t d) G x_t (hop d))) = nrows x_s
    \<and> ncols (hcat (hop_sum (w_s d) F x_s (hop d)) (hop_sum (w_t d) G x_t (hop d))) = 2 * ncols x_s
    \<and> wf_mat (hcat (hop_sum (w_s d) F x_s (hop d)) (hop_sum (w_t d) G x_t (hop d)))"
proof -
  let ?fs = "hop_sum (w_s d) F x_s (hop d)" and ?ft = "hop_sum (w_t d) G x_t (hop d)"
  note sF = shape_hop_sum [OF conv(1), where w = "w_s d" and y = x_s and H = "hop d"]
    and sG = shape_hop_sum [OF conv(2), where w = "w_t d" and y = x_t and H = "hop d"]
  have rows: "nrows ?ft = nrows ?fs" using sF sG shape by simp
  have loop: "dimpa_hops d edge_index (snd edge_index, fst edge_index) edge_weight [1..<Suc (hop d)]
      (x_s, x_t, scale (w_s d ! 0) x_s, scale (w_t d ! 0) x_t)
    = Inr ((F ^^ hop d) x_s, (G ^^ hop d) x_t, ?fs, ?ft)"
    unfolding F_def G_def
    by (rule dimpa_hops_closed) (use w conv in \<open>simp_all add: F_def G_def\<close>)
  have "DIMPA_forward d x_s x_t edge_index edge_weight
      = py_bind (dimpa_hops d edge_index (snd edge_index, fst edge_index) edge_weight [1..<Suc (hop d)]
          (x_s, x_t, scale (w_s d ! 0) x_s, scale (w_t d ! 0) x_t))
        (\<lambda>(curr_s, curr_t, feat_s, feat_t). torch_cat1 [feat_s, feat_t])"
    using w by (simp add: DIMPA_forward_def w_at_def Let_def del: upt_Suc torch_cat1.simps)
  also have "\<dots> = torch_cat1 [?fs, ?ft]"
    by (simp only: loop py_bind_simps prod.case)
  also have "\<dots> = Inr (hcat ?fs ?ft)"
    by (rule torch_cat1_pair [OF rows])
  finally have "DIMPA_forward d x_s x_t edge_index edge_weight = Inr (hcat ?fs ?ft)" .
  moreover have "nrows (hcat ?fs ?ft) = nrows x_s"
    using rows sF by simp
  moreover have "ncols (hcat ?fs ?ft) = 2 * ncols x_s"
    using sF sG shape by simp
  moreover have "wf_mat (hcat ?fs ?ft)"
    using sF sG wf by (simp add: wf_hcat)
  ultimately show ?thesis by simp
qed

text \<open>
  Claim C2. For every hop count and for source and target features of one shape, with a
  convolution layer that keeps the shape of its argument, \<^verbatim>\<open>DIMPA.forward\<close> returns
  the concatenation along the columns of \<open>feat_s\<close> and \<open>feat_t\<close>, where \<open>feat_s\<close> is the
  sum over \<open>h = 0..hop\<close> of \<open>w_s[h]\<close> times the \<open>h\<close>-fold convolution of \<open>x_s\<close> along the
  edge index, and \<open>feat_t\<close> the same sum with \<open>w_t\<close> and \<open>x_t\<close> along the edge index
  with its two rows swapped; the result has the rows of the inputs and twice their
  columns.
\<close>

theorem DIMPA_forward_hop_sums:
  fixes d :: "'a::{plus,times} DIMPA" and edge_index :: edge_index and edge_weight :: "'a list"
  defines "F \<equiv> \<lambda>y. conv_layer d y edge_index edge_weight"
    and "G \<equiv> \<lambda>y. conv_layer d y (snd edge_index, fst edge_index) edge_weight"
  assumes A: "length (w_s d) = hop d + 1" "length (w_t d) = hop d + 1"
    "keeps_shape F" "keeps_shape G"
    "nrows x_t = nrows x_s" "ncols x_t = ncols x_s"
    "wf_mat x_s" "wf_mat x_t"
  shows "DIMPA_forward d x_s x_t edge_index edge_weight
      = Inr (hcat (hop_sum (w_s d) F x_s (hop d)) (hop_sum (w_t d) G x_t (hop d)))
    \<and> nrows (hcat (hop_sum (w_s d) F x_s (hop d)) (hop_sum (w_t d) G x_t (hop d))) = nrows x_s
    \<and> ncols (hcat (hop_sum (w_s d) F x_s (hop d)) (hop_sum (w_t d) G x_t (hop d))) = 2 * ncols x_s
    \<and> wf_mat (hcat (hop_sum (w_s d) F x_s (hop d)) (hop_sum (w_t d) G x_t (hop d)))"
  using A unfolding F_def G_def by (rule DIMPA_forward_closed)

theorem DIMPA_forward_hop_sums_witness:
  "length (w_s (\<lparr>hop = 2, w_s = [1, 2, 3], w_t = [1, 1, 1],
                  conv_layer = (\<lambda>y ei ew. scale (hd (fst ei)) y)\<rparr> :: int DIMPA)) = 2 + 1
   \<and> keeps_shape (\<lambda>y :: int mat. scale (hd (fst ([2, 5], [3, 7]))) y)
   \<and> wf_mat \<lparr>ncols = 2, rows = [[1, 0], [0, 1 :: int]]\<rparr>
   \<and> DIMPA_forward \<lparr>hop = 2, w_s = [1, 2, 3], w_t = [1, 1, 1], conv_layer = (\<lambda>y ei ew. scale (hd (fst ei)) y)\<rparr>
        \<lparr>ncols = 2, rows = [[1, 0], [0, 1]]\<rparr> \<lparr>ncols = 2, rows = [[1, 1], [0, 2]]\<rparr> ([2, 5], [3, 7]) [1, 1]
     = Inr \<lparr>ncols = 4, rows = [[17, 0, 13, 13], [0, 17, 0, 26 :: int]]\<rparr>"
proof -
  let ?d = "\<lparr>hop = 2, w_s = [1, 2, 3], w_t = [1, 1, 1], conv_layer = (\<lambda>y ei ew. scale (hd (fst ei)) y)\<rparr> :: int DIMPA"
  let ?xs = "\<lparr>ncols = 2, rows = [[1, 0], [0, 1 :: int]]\<rparr>" and ?xt = "\<lparr>ncols = 2, rows = [[1, 1], [0, 2 :: int]]\<rparr>"
  have k: "keeps_shape (\<lambda>y :: int mat. scale c y)" for c
    by (simp add: keeps_shape_def)
  have e: "hcat (hop_sum (w_s ?d) (\<lambda>y. conv_layer ?d y ([2, 5], [3, 7]) [1, 1]) ?xs (hop ?d))
      (hop_sum (w_t ?d) (\<lambda>y. conv_layer ?d y (snd ([2, 5], [3, 7]), fst ([2, 5], [3, 7])) [1, 1]) ?xt (hop ?d))
    = \<lparr>ncols = 4, rows = [[17, 0, 13, 13], [0, 17, 0, 26]]\<rparr>"
    by code_simp
  have w: "wf_mat ?xs" "wf_mat ?xt" by (simp_all add: wf_mat_def)
  have s: "nrows ?xt = nrows ?xs" by (simp add: nrows_def)
  show ?thesis
    using DIMPA_forward_hop_sums [where d = ?d and edge_index = "([2, 5], [3, 7])" and edge_weight = "[1, 1]"
        and x_s = ?xs and x_t = ?xt] k w s e
    by simp
qed

lemma torch_mm_ok:
  assumes "ncols a = nrows b"
  shows "\<exists>y. torch_mm T a b = Inr y \<and> nrows y = nrows a \<and> ncols y = ncols b \<and> wf_mat y"
  using assms by (simp add: torch_mm_def nrows_def wf_mat_def list_all_iff)

lemma shape_relu_mat [simp]: "nrows (relu_mat T y) = nrows y" "ncols (relu_mat T y) = ncols y"
  by (simp_all add: relu_mat_def nrows_def)

lemma shape_dropout_mat [simp]: "nrows (dropout_mat T c y) = nrows y" "ncols (dropout_mat T c y) = ncols y"
  by (simp_all add: dropout_mat_def nrows_def)

lemma mlp2_ok:
  assumes "ncols features = nrows w0" and "ncols w0 = nrows w1"
  shows "\<exists>y. mlp2 T c features w0 w1 = Inr y \<and> nrows y = nrows features \<and> ncols y = ncols w1 \<and> wf_mat y"
proof -
  obtain h where h: "torch_mm T features w0 = Inr h" "nrows h = nrows features" "ncols h = ncols w0"
    using torch_mm_ok [OF assms(1)] by blast
  have "ncols (dropout_mat T c (relu_mat T h)) = nrows w1"
    using h assms(2) by simp
  from torch_mm_ok [OF this, of T] h show ?thesis
    by (auto simp: mlp2_def Let_def)
qed

lemma add_bias_ok:
  assumes "ncols y = length b"
  shows "\<exists>l. add_bias y b = Inr l \<and> nrows l = nrows y \<and> ncols l = ncols y
    \<and> (wf_mat y \<longrightarrow> wf_mat l)"
  using assms by (auto simp: add_bias_def nrows_def wf_mat_def list_all_iff)

lemma rows_rowwise: "i < nrows y \<Longrightarrow> rows (rowwise f y) ! i = f (rows y ! i)"
  by (simp add: rowwise_def nrows_def)

text \<open>The stages of \<^verbatim>\<open>DIGRAC.forward\<close> on inputs of the right shapes, for any kernels.\<close>

lemma DIGRAC_forward_stages:
  fixes m :: "'a::{plus,times} DIGRAC" and edge_index :: edge_index and edge_weight :: "'a list"
  assumes shapes: "DIGRAC_shapes nfeat hidden nclass m" and k: "0 < nclass"
    and feat: "ncols features = nfeat"
    and conv: "keeps_shape (\<lambda>y. conv_layer (dimpa m) y edge_index edge_weight)"
      "keeps_shape (\<lambda>y. conv_layer (dimpa m) y (snd edge_index, fst edge_index) edge_weight)"
  shows "\<exists>x_s x_t z zW logits.
      mlp2 T 0 features (w_s0 m) (w_s1 m) = Inr x_s
    \<and> mlp2 T 1 features (w_t0 m) (w_t1 m) = Inr x_t
    \<and> DIMPA_forward (dimpa m) x_s x_t edge_index edge_weight = Inr z
    \<and> torch_mm T z (W_prob m) = Inr zW
    \<and> add_bias zW (bias m) = Inr logits
    \<and> nrows z = nrows features \<and> ncols z = 2 * hidden \<and> wf_mat z
    \<and> nrows logits = nrows features \<and> ncols logits = nclass \<and> wf_mat logits
    \<and> DIGRAC_forward T m edge_index edge_weight features
        = Inr (rowwise (normalize_row T) z, rowwise (log_softmax_row T) logits,
               map (argmax_row T) (rows logits), rowwise (softmax_row T) logits)"
proof -
  from shapes have s:
    "nrows (w_s0 m) = nfeat" "ncols (w_s0 m) = hidden" "nrows (w_s1 m) = hidden" "ncols (w_s1 m) = hidden"
    "nrows (w_t0 m) = nfeat" "ncols (w_t0 m) = hidden" "nrows (w_t1 m) = hidden" "ncols (w_t1 m) = hidden"
    "length (w_s (dimpa m)) = hop (dimpa m) + 1" "length (w_t (dimpa m)) = hop (dimpa m) + 1"
    "length (bias m) = nclass" "nrows (W_prob m) = 2 * hidden" "ncols (W_prob m) = nclass"
    by (simp_all add: DIGRAC_shapes_def)
  obtain x_s where xs: "mlp2 T 0 features (w_s0 m) (w_s1 m) = Inr x_s"
      "nrows x_s = nrows features" "ncols x_s = hidden" "wf_mat x_s"
    using mlp2_ok [of features "w_s0 m" "w_s1 m" T 0] feat s by auto
  obtain x_t where xt: "mlp2 T 1 features (w_t0 m) (w_t1 m) = Inr x_t"
      "nrows x_t = nrows features" "ncols x_t = hidden" "wf_mat x_t"
    using mlp2_ok [of features "w_t0 m" "w_t1 m" T 1] feat s by auto
  define z where "z = hcat (hop_sum (w_s (dimpa m)) (\<lambda>y. conv_layer (dimpa m) y edge_index edge_weight) x_s (hop (dimpa m)))
      (hop_sum (w_t (dimpa m)) (\<lambda>y. conv_layer (dimpa m) y (snd edge_index, fst edge_index) edge_weight) x_t (hop (dimpa m)))"
  have z: "DIMPA_forward (dimpa m) x_s x_t edge_index edge_weight = Inr z"
      "nrows z = nrows features" "ncols z = 2 * hidden" "wf_mat z"
    using DIMPA_forward_closed [where d = "dimpa m" and edge_index = edge_index and edge_weight = edge_weight
        and x_s = x_s and x_t = x_t] s conv xs xt
    by (simp_all add: z_def)
  obtain zW where zW: "torch_mm T z (W_prob m) = Inr zW" "nrows zW = nrows features" "ncols zW = nclass"
      "wf_mat zW"
    using torch_mm_ok [of z "W_prob m" T] z s by auto
  obtain logits where lg: "add_bias zW (bias m) = Inr logits" "nrows logits = nrows features" "ncols logits = nclass"
      "wf_mat logits"
    using add_bias_ok [of zW "bias m"] zW s by auto
  have am: "argmax_dim1 T logits = Inr (map (argmax_row T) (rows logits))"
    using lg k by (simp add: argmax_dim1_def)
  have fw: "DIGRAC_forward T m edge_index edge_weight features
        = Inr (rowwise (normalize_row T) z, rowwise (log_softmax_row T) logits,
               map (argmax_row T) (rows logits), rowwise (softmax_row T) logits)"
    by (simp add: DIGRAC_forward_def xs xt z zW lg am Let_def del: One_nat_def)
  from xs xt z zW lg fw show ?thesis by blast
qed

text \<open>Softmax: positive entries that sum to one.\<close>

lemma sum_exp_pos: "r \<noteq> [] \<Longrightarrow> 0 < sum_list (map exp r)" for r :: "real list"
proof (induction r)
  case Nil
  then show ?case by simp
next
  case (Cons a r)
  have "0 \<le> sum_list (map exp r)" by (rule sum_list_nonneg) auto
  then show ?case by (simp add: add_pos_nonneg)
qed

lemma sum_list_divide: "sum_list (map (\<lambda>a. f a / c) r) = sum_list (map f r) / c" for c :: real
  by (induction r) (simp_all add: add_divide_distrib)

lemma length_softmax_1d [simp]: "length (softmax_1d r) = length r"
  by (simp add: softmax_1d_def)

lemma sum_softmax_1d: "r \<noteq> [] \<Longrightarrow> sum_list (softmax_1d r) = 1"
  using sum_exp_pos [of r] by (simp add: softmax_1d_def sum_list_divide)

lemma softmax_1d_pos: "p \<in> set (softmax_1d r) \<Longrightarrow> 0 < p"
proof -
  assume p: "p \<in> set (softmax_1d r)"
  then have "r \<noteq> []" by (auto simp: softmax_1d_def)
  from sum_exp_pos [OF this] p show ?thesis by (auto simp: softmax_1d_def)
qed

text \<open>Arg-max: the first index of the maximum, kept by strictly increasing maps.\<close>

lemma takeWhile_stops: "\<exists>a\<in>set xs. \<not> P a \<Longrightarrow> length (takeWhile P xs) < length xs"
  by (induction xs) auto

lemma takeWhile_before: "j < length (takeWhile P xs) \<Longrightarrow> P (xs ! j)"
  using nth_mem [of j "takeWhile P xs"] by (auto simp: takeWhile_nth dest: set_takeWhileD)

lemma argmax_1d_first_max:
  assumes "r \<noteq> []"
  shows "argmax_1d r < length r" and "\<forall>j<length r. r ! j \<le> r ! argmax_1d r"
    and "\<forall>j<argmax_1d r. r ! j < r ! argmax_1d r"
proof -
  let ?M = "Max (set r)"
  have M: "?M \<in> set r" using assms by (intro Max_in) simp_all
  have "\<exists>a\<in>set r. \<not> a \<noteq> ?M" using M by blast
  then show lt: "argmax_1d r < length r"
    unfolding argmax_1d_def by (rule takeWhile_stops)
  then have at: "r ! argmax_1d r = ?M"
    unfolding argmax_1d_def using nth_length_takeWhile [of "\<lambda>a. a \<noteq> ?M" r] by simp
  show "\<forall>j<length r. r ! j \<le> r ! argmax_1d r"
    unfolding at by (simp add: Max_ge)
  show "\<forall>j<argmax_1d r. r ! j < r ! argmax_1d r"
  proof (intro allI impI)
    fix j assume j: "j < argmax_1d r"
    then have "r ! j \<noteq> ?M"
      unfolding argmax_1d_def by (rule takeWhile_before)
    moreover have "r ! j \<le> ?M" using j lt by (simp add: Max_ge)
    ultimately show "r ! j < r ! argmax_1d r" unfolding at by simp
  qed
qed

lemma argmax_1d_map:
  assumes f: "strict_mono f" and r: "r \<noteq> []"
  shows "argmax_1d (map f r) = argmax_1d r"
proof -
  have inj: "f a \<noteq> f b \<longleftrightarrow> a \<noteq> b" for a b
    using strict_mono_eq [OF f] by blast
  have "Max (set (map f r)) = f (Max (set r))"
    using r mono_Max_commute [OF strict_mono_mono [OF f], of "set r"] by simp
  then show ?thesis
    by (simp add: argmax_1d_def takeWhile_map comp_def inj)
qed

lemma argmax_softmax_1d:
  assumes "r \<noteq> []"
  shows "argmax_1d (softmax_1d r) = argmax_1d r"
proof -
  have "strict_mono (\<lambda>a :: real. exp a / sum_list (map exp r))"
    using sum_exp_pos [OF assms] by (intro strict_monoI) (simp add: divide_strict_right_mono)
  from argmax_1d_map [OF this assms] show ?thesis
    by (simp add: softmax_1d_def)
qed

text \<open>The product and the bias as the closed form of the logits.\<close>

lemma sum_list_map2_nth:
  fixes f :: "'b \<Rightarrow> 'c \<Rightarrow> real"
  assumes "length ys = length xs"
  shows "sum_list (map2 f xs ys) = (\<Sum>k<length xs. f (xs ! k) (ys ! k))"
proof -
  have "sum_list (map2 f xs ys) = (\<Sum>k = 0..<length xs. map2 f xs ys ! k)"
    using assms by (simp add: sum_list_sum_nth)
  also have "\<dots> = (\<Sum>k = 0..<length xs. f (xs ! k) (ys ! k))"
    using assms by (intro sum.cong) simp_all
  finally show ?thesis by (simp add: atLeast0LessThan)
qed

lemma map2_upt:
  assumes "length b = n"
  shows "map2 f (map g [0..<n]) b = map (\<lambda>j. f (g j) (b ! j)) [0..<n]"
  using assms by (intro nth_equalityI) simp_all

lemma logits_closed:
  assumes mm: "torch_mm (exact_torch dr) z W = Inr zW" and ab: "add_bias zW b = Inr l"
    and sh: "ncols z = nrows W" "ncols W = length b" and wf: "wf_mat z"
  shows "l = linear_logits z W b"
proof -
  have zW: "zW = \<lparr>ncols = ncols W,
      rows = map (\<lambda>r. map (\<lambda>j. sum_list (map2 (*) r (map (\<lambda>br. br ! j) (rows W)))) [0..<ncols W]) (rows z)\<rparr>"
    using mm sh by (simp add: torch_mm_def exact_torch_def)
  have row: "map2 (+) (map (\<lambda>j. sum_list (map2 (*) r (map (\<lambda>br. br ! j) (rows W)))) [0..<length b]) b
      = map (\<lambda>j. (\<Sum>k<nrows W. r ! k * rows W ! k ! j) + b ! j) [0..<length b]"
    if "r \<in> set (rows z)" for r
  proof -
    have len: "length r = nrows W"
      using that wf sh by (simp add: wf_mat_def list_all_iff)
    have "sum_list (map2 (*) r (map (\<lambda>br. br ! j) (rows W))) = (\<Sum>k<nrows W. r ! k * rows W ! k ! j)" for j
      using sum_list_map2_nth [of "map (\<lambda>br. br ! j) (rows W)" r "(*)"] len
      by (simp add: nrows_def)
    then show ?thesis by (simp add: map2_upt)
  qed
  have rows_eq: "map (\<lambda>r. map2 (+) (map (\<lambda>j. sum_list (map2 (*) r (map (\<lambda>br. br ! j) (rows W)))) [0..<length b]) b) (rows z)
      = map (\<lambda>r. map (\<lambda>j. (\<Sum>k<nrows W. r ! k * rows W ! k ! j) + b ! j) [0..<length b]) (rows z)"
    using row by (intro map_cong) simp_all
  from ab show ?thesis
    unfolding zW linear_logits_def using sh by (simp add: add_bias_def comp_def rows_eq)
qed

lemma exact_torch_fields [simp]:
  "argmax_row (exact_torch dr) = argmax_1d" "softmax_row (exact_torch dr) = softmax_1d"
  "log_softmax_row (exact_torch dr) = log_softmax_1d" "normalize_row (exact_torch dr) = normalize_1d"
  by (simp_all add: exact_torch_def)

lemma wf_mat_nth: "wf_mat y \<Longrightarrow> i < nrows y \<Longrightarrow> length (rows y ! i) = ncols y"
  by (simp add: wf_mat_def list_all_iff nrows_def)

lemma shape_rowwise [simp]: "nrows (rowwise f y) = nrows y" "ncols (rowwise f y) = ncols y"
  by (simp_all add: rowwise_def nrows_def)

text \<open>
  Claim C1. For parameters of the shapes the constructor gives them, at least one
  cluster, features with \<open>nfeat\<close> columns and a convolution layer that keeps shapes,
  \<^verbatim>\<open>DIGRAC.forward\<close> returns four values: the row-wise L2 normalisation of the DIMPA
  embedding \<open>z\<close> of the two perceptron outputs, the row-wise log-softmax of the logits
  \<open>z \<cdot> W_prob + bias\<close>, the arg-max of every row of these logits, and the row-wise
  softmax of the same logits. The logits are given in closed form and the kernels in
  exact arithmetic.
\<close>

theorem DIGRAC_forward_outputs:
  fixes m :: "real DIGRAC" and edge_index :: edge_index and edge_weight :: "real list"
  assumes shapes: "DIGRAC_shapes nfeat hidden nclass m" and k: "0 < nclass"
    and feat: "ncols features = nfeat"
    and conv: "keeps_shape (\<lambda>y. conv_layer (dimpa m) y edge_index edge_weight)"
      "keeps_shape (\<lambda>y. conv_layer (dimpa m) y (snd edge_index, fst edge_index) edge_weight)"
  shows "\<exists>x_s x_t z.
      mlp2 (exact_torch dr) 0 features (w_s0 m) (w_s1 m) = Inr x_s
    \<and> mlp2 (exact_torch dr) 1 features (w_t0 m) (w_t1 m) = Inr x_t
    \<and> DIMPA_forward (dimpa m) x_s x_t edge_index edge_weight = Inr z
    \<and> nrows z = nrows features \<and> ncols z = 2 * hidden
    \<and> DIGRAC_forward (exact_torch dr) m edge_index edge_weight features
        = Inr (rowwise normalize_1d z,
               rowwise log_softmax_1d (linear_logits z (W_prob m) (bias m)),
               map argmax_1d (rows (linear_logits z (W_prob m) (bias m))),
               rowwise softmax_1d (linear_logits z (W_prob m) (bias m)))
    \<and> nrows (linear_logits z (W_prob m) (bias m)) = nrows features
    \<and> ncols (linear_logits z (W_prob m) (bias m)) = nclass
    \<and> (\<forall>i<nrows features.
          rows (rowwise normalize_1d z) ! i = normalize_1d (rows z ! i)
        \<and> rows (rowwise log_softmax_1d (linear_logits z (W_prob m) (bias m))) ! i
            = log_softmax_1d (rows (linear_logits z (W_prob m) (bias m)) ! i)
        \<and> map argmax_1d (rows (linear_logits z (W_prob m) (bias m))) ! i
            = argmax_1d (rows (linear_logits z (W_prob m) (bias m)) ! i)
        \<and> rows (rowwise softmax_1d (linear_logits z (W_prob m) (bias m))) ! i
            = softmax_1d (rows (linear_logits z (W_prob m) (bias m)) ! i))"
proof -
  obtain x_s x_t z zW logits where st:
    "mlp2 (exact_torch dr) 0 features (w_s0 m) (w_s1 m) = Inr x_s"
    "mlp2 (exact_torch dr) 1 features (w_t0 m) (w_t1 m) = Inr x_t"
    "DIMPA_forward (dimpa m) x_s x_t edge_index edge_weight = Inr z"
    "torch_mm (exact_torch dr) z (W_prob m) = Inr zW"
    "add_bias zW (bias m) = Inr logits"
    "nrows z = nrows features" "ncols z = 2 * hidden" "wf_mat z"
    "nrows logits = nrows features" "ncols logits = nclass"
    "DIGRAC_forward (exact_torch dr) m edge_index edge_weight features
        = Inr (rowwise (normalize_row (exact_torch dr)) z, rowwise (log_softmax_row (exact_torch dr)) logits,
               map (argmax_row (exact_torch dr)) (rows logits), rowwise (softmax_row (exact_torch dr)) logits)"
    using DIGRAC_forward_stages [OF shapes k feat conv, of "exact_torch dr"] by blast
  have W: "ncols z = nrows (W_prob m)" "ncols (W_prob m) = length (bias m)"
    using shapes st by (simp_all add: DIGRAC_shapes_def)
  have lg: "logits = linear_logits z (W_prob m) (bias m)"
    using st(4) st(5) W st(8) by (rule logits_closed)
  have rw: "rows (rowwise normalize_1d z) ! i = normalize_1d (rows z ! i)
        \<and> rows (rowwise log_softmax_1d logits) ! i = log_softmax_1d (rows logits ! i)
        \<and> map argmax_1d (rows logits) ! i = argmax_1d (rows logits ! i)
        \<and> rows (rowwise softmax_1d logits) ! i = softmax_1d (rows logits ! i)"
    if "i < nrows features" for i
    using that st by (simp add: rows_rowwise) (simp add: nrows_def)
  show ?thesis
    apply (rule exI [where x = x_s], rule exI [where x = x_t], rule exI [where x = z])
    unfolding lg [symmetric] using st rw by simp
qed

text \<open>The example: its hypotheses and the values of the stages.\<close>

lemma ex_hypotheses:
  "DIGRAC_shapes 1 1 2 ex_module" "ncols ex_features = 1"
  "keeps_shape (\<lambda>y. conv_layer (dimpa ex_module) y ei ew)"
  by (simp_all add: DIGRAC_shapes_def ex_module_def ex_features_def nrows_def keeps_shape_def)

lemma sqrt_9_16: "sqrt 9 = 3" "sqrt 16 = 4"
  by (rule real_sqrt_unique; simp)+

theorem DIGRAC_forward_outputs_witness:
  "DIGRAC_shapes 1 1 2 ex_module \<and> (0::nat) < 2 \<and> ncols ex_features = 1
   \<and> keeps_shape (\<lambda>y. conv_layer (dimpa ex_module) y ([0], [1]) [1])
   \<and> keeps_shape (\<lambda>y. conv_layer (dimpa ex_module) y (snd ([0], [1]), fst ([0], [1])) [1])
   \<and> DIGRAC_forward (exact_torch ex_dropout) ex_module ([0], [1]) [1] ex_features
       = Inr (\<lparr>ncols = 2, rows = [[1, 0], [0, 1]]\<rparr>,
              \<lparr>ncols = 2, rows = [[ln (exp 3 / (exp 3 + exp 1)), ln (exp 1 / (exp 3 + exp 1))],
                                  [ln (1 / (1 + exp 5)), ln (exp 5 / (1 + exp 5))]]\<rparr>,
              [0, 1],
              \<lparr>ncols = 2, rows = [[exp 3 / (exp 3 + exp 1), exp 1 / (exp 3 + exp 1)],
                                  [1 / (1 + exp 5), exp 5 / (1 + exp 5)]]\<rparr>)"
proof -
  note h = ex_hypotheses(1,2) ex_hypotheses(3) [where ei = "([0], [1])" and ew = "[1]"]
    ex_hypotheses(3) [where ei = "(snd ([0], [1]), fst ([0], [1]))" and ew = "[1]"]
  obtain x_s x_t z where st:
    "mlp2 (exact_torch ex_dropout) 0 ex_features (w_s0 ex_module) (w_s1 ex_module) = Inr x_s"
    "mlp2 (exact_torch ex_dropout) 1 ex_features (w_t0 ex_module) (w_t1 ex_module) = Inr x_t"
    "DIMPA_forward (dimpa ex_module) x_s x_t ([0], [1]) [1] = Inr z"
    "DIGRAC_forward (exact_torch ex_dropout) ex_module ([0], [1]) [1] ex_features
        = Inr (rowwise normalize_1d z,
               rowwise log_softmax_1d (linear_logits z (W_prob ex_module) (bias ex_module)),
               map argmax_1d (rows (linear_logits z (W_prob ex_module) (bias ex_module))),
               rowwise softmax_1d (linear_logits z (W_prob ex_module) (bias ex_module)))"
    using DIGRAC_forward_outputs [where m = ex_module and nfeat = 1 and hidden = 1 and nclass = 2
        and features = ex_features and edge_index = "([0], [1])" and edge_weight = "[1]"
        and dr = ex_dropout] h
    by auto
  have "mlp2 (exact_torch ex_dropout) 0 ex_features (w_s0 ex_module) (w_s1 ex_module)
      = Inr \<lparr>ncols = 1, rows = [[1], [0]]\<rparr>"
    by (simp add: mlp2_def torch_mm_def relu_mat_def dropout_mat_def exact_torch_def ex_dropout_def
        ex_module_def ex_features_def nrows_def py_bind_def Let_def upt_rec)
  with st(1) have xs: "x_s = \<lparr>ncols = 1, rows = [[1], [0]]\<rparr>" by simp
  have "mlp2 (exact_torch ex_dropout) 1 ex_features (w_t0 ex_module) (w_t1 ex_module)
      = Inr \<lparr>ncols = 1, rows = [[0], [2]]\<rparr>"
    by (simp add: mlp2_def torch_mm_def relu_mat_def dropout_mat_def exact_torch_def ex_dropout_def
        ex_module_def ex_features_def nrows_def py_bind_def Let_def upt_rec)
  with st(2) have xt: "x_t = \<lparr>ncols = 1, rows = [[0], [2]]\<rparr>" by simp
  have "DIMPA_forward (dimpa ex_module) \<lparr>ncols = 1, rows = [[1], [0]]\<rparr> \<lparr>ncols = 1, rows = [[0], [2]]\<rparr>
      ([0], [1]) [1] = Inr \<lparr>ncols = 2, rows = [[3, 0], [0, 4]]\<rparr>"
    by (simp add: DIMPA_forward_def w_at_def dimpa_hop_def iadd_def madd_def expand_to_def scale_def
        ex_module_def nrows_def py_bind_def Let_def upt_rec)
  with st(3) have z: "z = \<lparr>ncols = 2, rows = [[3, 0], [0, 4]]\<rparr>" by (simp add: xs xt)
  have lg: "linear_logits z (W_prob ex_module) (bias ex_module) = \<lparr>ncols = 2, rows = [[3, 1], [0, 5]]\<rparr>"
    by (simp add: z linear_logits_def ex_module_def nrows_def upt_rec lessThan_Suc numeral_2_eq_2)
  have "DIGRAC_forward (exact_torch ex_dropout) ex_module ([0], [1]) [1] ex_features
       = Inr (\<lparr>ncols = 2, rows = [[1, 0], [0, 1]]\<rparr>,
              \<lparr>ncols = 2, rows = [[ln (exp 3 / (exp 3 + exp 1)), ln (exp 1 / (exp 3 + exp 1))],
                                  [ln (1 / (1 + exp 5)), ln (exp 5 / (1 + exp 5))]]\<rparr>,
              [0, 1],
              \<lparr>ncols = 2, rows = [[exp 3 / (exp 3 + exp 1), exp 1 / (exp 3 + exp 1)],
                                  [1 / (1 + exp 5), exp 5 / (1 + exp 5)]]\<rparr>)"
    unfolding st(4) lg
    by (simp add: z rowwise_def normalize_1d_def log_softmax_1d_def softmax_1d_def argmax_1d_def sqrt_9_16)
  with h show ?thesis by simp
qed

lemma ex_forward_value:
  "DIGRAC_forward (exact_torch ex_dropout) ex_module ([0], [1]) [1] ex_features
     = Inr (\<lparr>ncols = 2, rows = [[1, 0], [0, 1]]\<rparr>,
            \<lparr>ncols = 2, rows = [[ln (exp 3 / (exp 3 + exp 1)), ln (exp 1 / (exp 3 + exp 1))],
                                [ln (1 / (1 + exp 5)), ln (exp 5 / (1 + exp 5))]]\<rparr>,
            [0, 1],
            \<lparr>ncols = 2, rows = [[exp 3 / (exp 3 + exp 1), exp 1 / (exp 3 + exp 1)],
                                [1 / (1 + exp 5), exp 5 / (1 + exp 5)]]\<rparr>)"
  by (simp add: DIGRAC_forward_def mlp2_def torch_mm_def relu_mat_def dropout_mat_def
      exact_torch_def ex_dropout_def ex_module_def ex_features_def nrows_def py_bind_def
      DIMPA_forward_def w_at_def dimpa_hop_def iadd_def madd_def expand_to_def scale_def
      add_bias_def argmax_dim1_def rowwise_def softmax_1d_def log_softmax_1d_def
      normalize_1d_def argmax_1d_def Let_def upt_rec sqrt_9_16)

lemma DIGRAC_forward_probabilities:
  fixes m :: "real DIGRAC" and edge_index :: edge_index and edge_weight :: "real list"
  assumes shapes: "DIGRAC_shapes nfeat hidden nclass m" and k: "0 < nclass"
    and feat: "ncols features = nfeat"
    and conv: "keeps_shape (\<lambda>y. conv_layer (dimpa m) y edge_index edge_weight)"
      "keeps_shape (\<lambda>y. conv_layer (dimpa m) y (snd edge_index, fst edge_index) edge_weight)"
  shows "\<exists>z logits.
      DIGRAC_forward (exact_torch dr) m edge_index edge_weight features
        = Inr (rowwise normalize_1d z, rowwise log_softmax_1d logits,
               map argmax_1d (rows logits), rowwise softmax_1d logits)
    \<and> nrows logits = nrows features \<and> ncols logits = nclass
    \<and> (\<forall>i<nrows features. length (rows logits ! i) = nclass)"
proof -
  obtain z logits where st:
    "nrows logits = nrows features" "ncols logits = nclass" "wf_mat logits"
    "DIGRAC_forward (exact_torch dr) m edge_index edge_weight features
        = Inr (rowwise (normalize_row (exact_torch dr)) z, rowwise (log_softmax_row (exact_torch dr)) logits,
               map (argmax_row (exact_torch dr)) (rows logits), rowwise (softmax_row (exact_torch dr)) logits)"
    using DIGRAC_forward_stages [OF shapes k feat conv, of "exact_torch dr"] by blast
  have "length (rows logits ! i) = nclass" if "i < nrows features" for i
    using wf_mat_nth [OF st(3), of i] that st by simp
  with st show ?thesis by auto
qed

text \<open>
  Claim C6. For every node the label \<^verbatim>\<open>DIGRAC.forward\<close> returns, the arg-max of the
  node's row of logits, is the arg-max of the node's row of \<open>prob\<close>: the first index at
  which that row of probabilities is maximal. The kernels are taken in exact
  arithmetic.
\<close>

theorem argmax_of_logits_is_argmax_of_prob:
  fixes m :: "real DIGRAC" and edge_index :: edge_index and edge_weight :: "real list"
  assumes shapes: "DIGRAC_shapes nfeat hidden nclass m" and k: "0 < nclass"
    and feat: "ncols features = nfeat"
    and conv: "keeps_shape (\<lambda>y. conv_layer (dimpa m) y edge_index edge_weight)"
      "keeps_shape (\<lambda>y. conv_layer (dimpa m) y (snd edge_index, fst edge_index) edge_weight)"
  shows "\<exists>z' output predictions_cluster prob.
      DIGRAC_forward (exact_torch dr) m edge_index edge_weight features
        = Inr (z', output, predictions_cluster, prob)
    \<and> length predictions_cluster = nrows features \<and> nrows prob = nrows features
    \<and> predictions_cluster = map argmax_1d (rows prob)
    \<and> (\<forall>i<nrows features.
          predictions_cluster ! i = argmax_1d (rows prob ! i)
        \<and> predictions_cluster ! i < nclass \<and> length (rows prob ! i) = nclass
        \<and> (\<forall>j<nclass. rows prob ! i ! j \<le> rows prob ! i ! (predictions_cluster ! i))
        \<and> (\<forall>j<predictions_cluster ! i. rows prob ! i ! j < rows prob ! i ! (predictions_cluster ! i)))"
proof -
  obtain z logits where st:
    "DIGRAC_forward (exact_torch dr) m edge_index edge_weight features
        = Inr (rowwise normalize_1d z, rowwise log_softmax_1d logits,
               map argmax_1d (rows logits), rowwise softmax_1d logits)"
    "nrows logits = nrows features" "ncols logits = nclass"
    "\<forall>i<nrows features. length (rows logits ! i) = nclass"
    using DIGRAC_forward_probabilities [OF shapes k feat conv, of dr] by blast
  let ?prob = "rowwise softmax_1d logits" and ?pred = "map argmax_1d (rows logits)"
  have ne: "r \<noteq> []" if "r \<in> set (rows logits)" for r
  proof -
    from that obtain i where "i < length (rows logits)" "r = rows logits ! i"
      by (auto simp: in_set_conv_nth)
    with st k show ?thesis by (auto simp: nrows_def)
  qed
  have pred: "?pred = map argmax_1d (rows ?prob)"
    using ne by (simp add: rowwise_def argmax_softmax_1d)
  have row: "?pred ! i = argmax_1d (rows ?prob ! i)
        \<and> ?pred ! i < nclass \<and> length (rows ?prob ! i) = nclass
        \<and> (\<forall>j<nclass. rows ?prob ! i ! j \<le> rows ?prob ! i ! (?pred ! i))
        \<and> (\<forall>j<?pred ! i. rows ?prob ! i ! j < rows ?prob ! i ! (?pred ! i))"
    if i: "i < nrows features" for i
  proof -
    let ?r = "rows logits ! i"
    have il: "i < length (rows logits)" using i st by (simp add: nrows_def)
    have len: "length ?r = nclass" using st i by simp
    then have r: "?r \<noteq> []" using k by auto
    have p: "rows ?prob ! i = softmax_1d ?r" "?pred ! i = argmax_1d (softmax_1d ?r)"
      using il by (simp_all add: rowwise_def argmax_softmax_1d [OF r])
    have s: "softmax_1d ?r \<noteq> []" using r by (simp add: softmax_1d_def)
    from argmax_1d_first_max [OF s] len show ?thesis
      unfolding p by simp
  qed
  have "length ?pred = nrows features" "nrows ?prob = nrows features"
    using st by (simp_all add: nrows_def rowwise_def)
  with st(1) pred row show ?thesis by blast
qed

theorem argmax_of_logits_is_argmax_of_prob_witness:
  "DIGRAC_shapes 1 1 2 ex_module \<and> (0::nat) < 2 \<and> ncols ex_features = 1
   \<and> keeps_shape (\<lambda>y. conv_layer (dimpa ex_module) y ([0], [1]) [1])
   \<and> keeps_shape (\<lambda>y. conv_layer (dimpa ex_module) y (snd ([0], [1]), fst ([0], [1])) [1])
   \<and> (\<exists>z' output.
        DIGRAC_forward (exact_torch ex_dropout) ex_module ([0], [1]) [1] ex_features
          = Inr (z', output, [0, 1],
                 \<lparr>ncols = 2, rows = [[exp 3 / (exp 3 + exp 1), exp 1 / (exp 3 + exp 1)],
                                     [1 / (1 + exp 5), exp 5 / (1 + exp 5)]]\<rparr>))
   \<and> map argmax_1d [[exp 3 / (exp 3 + exp 1), exp 1 / (exp 3 + exp 1)],
                     [1 / (1 + exp 5), exp 5 / (1 + exp 5)]] = [0, 1]"
proof -
  note h = ex_hypotheses(1,2) ex_hypotheses(3) [where ei = "([0], [1])" and ew = "[1]"]
    ex_hypotheses(3) [where ei = "(snd ([0], [1]), fst ([0], [1]))" and ew = "[1]"]
  obtain z' out predictions_cluster prob where st:
    "DIGRAC_forward (exact_torch ex_dropout) ex_module ([0], [1]) [1] ex_features
        = Inr (z', out, predictions_cluster, prob)"
    "predictions_cluster = map argmax_1d (rows prob)"
    using argmax_of_logits_is_argmax_of_prob [where m = ex_module and nfeat = 1 and hidden = 1
        and nclass = 2 and features = ex_features and edge_index = "([0], [1])"
        and edge_weight = "[1]" and dr = ex_dropout] h
    by auto
  from st(1) have v: "predictions_cluster = [0, 1]"
    "prob = \<lparr>ncols = 2, rows = [[exp 3 / (exp 3 + exp 1), exp 1 / (exp 3 + exp 1)],
                                [1 / (1 + exp 5), exp 5 / (1 + exp 5)]]\<rparr>"
    unfolding ex_forward_value by simp_all
  from st(2) have "map argmax_1d [[exp 3 / (exp 3 + exp 1), exp 1 / (exp 3 + exp 1)],
                     [1 / (1 + exp 5), exp 5 / (1 + exp 5)]] = [0, 1]"
    unfolding v by simp
  with h st(1) v show ?thesis by simp
qed

text \<open>
  Claim C7. Every row of the matrix \<open>prob\<close> that \<^verbatim>\<open>DIGRAC.forward\<close> returns has one
  positive entry for each of the clusters, and its entries sum to 1. The kernels are
  taken in exact arithmetic.
\<close>

theorem prob_rows_on_simplex:
  fixes m :: "real DIGRAC" and edge_index :: edge_index and edge_weight :: "real list"
  assumes shapes: "DIGRAC_shapes nfeat hidden nclass m" and k: "0 < nclass"
    and feat: "ncols features = nfeat"
    and conv: "keeps_shape (\<lambda>y. conv_layer (dimpa m) y edge_index edge_weight)"
      "keeps_shape (\<lambda>y. conv_layer (dimpa m) y (snd edge_index, fst edge_index) edge_weight)"
  shows "\<exists>z' output predictions_cluster prob.
      DIGRAC_forward (exact_torch dr) m edge_index edge_weight features
        = Inr (z', output, predictions_cluster, prob)
    \<and> nrows prob = nrows features \<and> ncols prob = nclass
    \<and> (\<forall>i<nrows features.
          length (rows prob ! i) = nclass
        \<and> sum_list (rows prob ! i) = 1
        \<and> (\<forall>p\<in>set (rows prob ! i). 0 < p))"
proof -
  obtain z logits where st:
    "DIGRAC_forward (exact_torch dr) m edge_index edge_weight features
        = Inr (rowwise normalize_1d z, rowwise log_softmax_1d logits,
               map argmax_1d (rows logits), rowwise softmax_1d logits)"
    "nrows logits = nrows features" "ncols logits = nclass"
    "\<forall>i<nrows features. length (rows logits ! i) = nclass"
    using DIGRAC_forward_probabilities [OF shapes k feat conv, of dr] by blast
  let ?prob = "rowwise softmax_1d logits"
  have row: "length (rows ?prob ! i) = nclass \<and> sum_list (rows ?prob ! i) = 1
      \<and> (\<forall>p\<in>set (rows ?prob ! i). 0 < p)"
    if i: "i < nrows features" for i
  proof -
    let ?r = "rows logits ! i"
    have il: "i < length (rows logits)" using i st by (simp add: nrows_def)
    have len: "length ?r = nclass" using st i by simp
    then have r: "?r \<noteq> []" using k by auto
    have p: "rows ?prob ! i = softmax_1d ?r"
      using il by (simp add: rowwise_def)
    show ?thesis
      unfolding p using len sum_softmax_1d [OF r] softmax_1d_pos by auto
  qed
  have "nrows ?prob = nrows features" "ncols ?prob = nclass"
    using st by simp_all
  with st(1) row show ?thesis by blast
qed

theorem prob_rows_on_simplex_witness:
  "DIGRAC_shapes 1 1 2 ex_module \<and> (0::nat) < 2 \<and> ncols ex_features = 1
   \<and> keeps_shape (\<lambda>y. conv_layer (dimpa ex_module) y ([0], [1]) [1])
   \<and> keeps_shape (\<lambda>y. conv_layer (dimpa ex_module) y (snd ([0], [1]), fst ([0], [1])) [1])
   \<and> (\<exists>z' output predictions_cluster.
        DIGRAC_forward (exact_torch ex_dropout) ex_module ([0], [1]) [1] ex_features
          = Inr (z', output, predictions_cluster,
                 \<lparr>ncols = 2, rows = [[exp 3 / (exp 3 + exp 1), exp 1 / (exp 3 + exp 1)],
                                     [1 / (1 + exp 5), exp 5 / (1 + exp 5)]]\<rparr>))
   \<and> sum_list [exp 3 / (exp 3 + exp 1), exp 1 / (exp 3 + exp 1)] = (1::real)
   \<and> sum_list [1 / (1 + exp 5), exp 5 / (1 + exp 5)] = (1::real)"
proof -
  note h = ex_hypotheses(1,2) ex_hypotheses(3) [where ei = "([0], [1])" and ew = "[1]"]
    ex_hypotheses(3) [where ei = "(snd ([0], [1]), fst ([0], [1]))" and ew = "[1]"]
  obtain z' out predictions_cluster prob where st:
    "DIGRAC_forward (exact_torch ex_dropout) ex_module ([0], [1]) [1] ex_features
        = Inr (z', out, predictions_cluster, prob)"
    "\<forall>i<nrows ex_features. sum_list (rows prob ! i) = 1"
    using prob_rows_on_simplex [where m = ex_module and nfeat = 1 and hidden = 1
        and nclass = 2 and features = ex_features and edge_index = "([0], [1])"
        and edge_weight = "[1]" and dr = ex_dropout] h
    by auto
  from st(1) have v:
    "prob = \<lparr>ncols = 2, rows = [[exp 3 / (exp 3 + exp 1), exp 1 / (exp 3 + exp 1)],
                                [1 / (1 + exp 5), exp 5 / (1 + exp 5)]]\<rparr>"
    unfolding ex_forward_value by simp
  have n: "(0::nat) < nrows ex_features" "(1::nat) < nrows ex_features"
    by (simp_all add: ex_features_def nrows_def)
  from st(2) n have "sum_list (rows prob ! 0) = 1" "sum_list (rows prob ! 1) = 1"
    by blast+
  then have "sum_list [exp 3 / (exp 3 + exp 1), exp 1 / (exp 3 + exp 1)] = (1::real)"
    "sum_list [1 / (1 + exp 5), exp 5 / (1 + exp 5)] = (1::real)"
    unfolding v by simp_all
  with h st(1) v show ?thesis by simp
qed

end
